theory Spec2Isabelle
  imports Complex_Main
begin

section \<open>JavaScript values used by the sources\<close>

text \<open>
  Strings are sequences of code units below 256 (the Latin-1 range of JavaScript's UTF-16
  strings); \<open>toLowerCase\<close> and \<open>trim\<close> are given on that range. Optional and
  possibly-undefined values are options, and the defaulting idiom \<open>x || d\<close> is written out
  for each type it is used at: it takes the default for an absent value and for a falsy one
  (the empty string, the number zero).
\<close>

definition truthy :: "string option \<Rightarrow> bool" where
  "truthy x = (case x of None \<Rightarrow> False | Some v \<Rightarrow> v \<noteq> [])"

definition or_empty :: "string option \<Rightarrow> string" where
  "or_empty x = (case x of None \<Rightarrow> [] | Some v \<Rightarrow> v)"

definition or_str :: "string option \<Rightarrow> string \<Rightarrow> string" where
  "or_str x d = (if truthy x then the x else d)"

definition or_zero :: "int option \<Rightarrow> int" where
  "or_zero x = (case x of None \<Rightarrow> 0 | Some v \<Rightarrow> v)"

definition or_nil :: "'a list option \<Rightarrow> 'a list" where
  "or_nil x = (case x of None \<Rightarrow> [] | Some v \<Rightarrow> v)"

fun starts_with :: "string \<Rightarrow> string \<Rightarrow> bool" where
  "starts_with [] s = True"
| "starts_with (p # ps) [] = False"
| "starts_with (p # ps) (c # cs) = (p = c \<and> starts_with ps cs)"

text \<open>\<open>s.includes(p)\<close>\<close>

fun includes_str :: "string \<Rightarrow> string \<Rightarrow> bool" where
  "includes_str p [] = (p = [])"
| "includes_str p (c # cs) = (starts_with p (c # cs) \<or> includes_str p cs)"

text \<open>\<open>s.replace(p, r)\<close> with a string pattern: the first occurrence only.\<close>

fun replace_first :: "string \<Rightarrow> string \<Rightarrow> string \<Rightarrow> string" where
  "replace_first p r [] = (if p = [] then r else [])"
| "replace_first p r (c # cs) =
     (if starts_with p (c # cs) then r @ drop (length p) (c # cs)
      else c # replace_first p r cs)"

text \<open>\<open>s.split(c)\<close> for a one-character separator; the result is never empty.\<close>

fun split_acc :: "char \<Rightarrow> string \<Rightarrow> string \<Rightarrow> string list" where
  "split_acc sep acc [] = [rev acc]"
| "split_acc sep acc (c # cs) =
     (if c = sep then rev acc # split_acc sep [] cs else split_acc sep (c # acc) cs)"

definition split_on :: "char \<Rightarrow> string \<Rightarrow> string list" where
  "split_on sep s = split_acc sep [] s"

text \<open>\<open>parts[i] || ''\<close>\<close>

definition part_or_empty :: "string list \<Rightarrow> nat \<Rightarrow> string" where
  "part_or_empty parts i = (if i < length parts then parts ! i else [])"

text \<open>\<open>xs.join(' ')\<close>\<close>

fun join_sp :: "string list \<Rightarrow> string" where
  "join_sp [] = []"
| "join_sp [x] = x"
| "join_sp (x # y # ys) = x @ '' '' @ join_sp (y # ys)"

text \<open>
  \<open>toLowerCase\<close> on the code units below 256: the letters \<open>A\<close> to \<open>Z\<close> and the capital
  letters of the Latin-1 block (192 to 222, the multiplication sign 215 apart) move up by 32;
  every other code unit is left as it is.
\<close>

definition lower_char :: "char \<Rightarrow> char" where
  "lower_char c =
     (let n = (of_char c :: nat)
      in if (65 \<le> n \<and> n \<le> 90) \<or> (192 \<le> n \<and> n \<le> 222 \<and> n \<noteq> 215)
         then char_of (n + 32) else c)"

definition toLowerCase :: "string \<Rightarrow> string" where
  "toLowerCase s = map lower_char s"

section \<open>Data model (types/index.ts)\<close>

datatype issue_state = Open | Closed

definition state_str :: "issue_state \<Rightarrow> string" where
  "state_str st = (case st of Open \<Rightarrow> ''open'' | Closed \<Rightarrow> ''closed'')"

record GitHubLabel =
  label_name :: string
  label_color :: string

record GitHubUser =
  user_id :: int
  login :: string
  user_name :: string
  avatar_url :: string
  email :: string

record ProjectLink =
  projectId :: string
  projectTitle :: string
  statusFieldId :: string
  statusValue :: string
  itemId :: string

record NormalizedIssue =
  issueId :: int
  nodeId :: "string option"
  title :: string
  body :: string
  repo :: string
  org :: string
  url :: string
  state :: issue_state
  labels :: "GitHubLabel list"
  assignees :: "GitHubUser list"
  createdAt :: string
  updatedAt :: string
  commentCount :: int
  number :: int
  user :: GitHubUser
  project :: "ProjectLink option"

datatype IssueSource = SourceAll | SourceOrganization

datatype SortOrder = SortUpdated | SortCreated | SortComments

datatype SortDirection = Asc | Desc

definition sortOrder_str :: "SortOrder \<Rightarrow> string" where
  "sortOrder_str k =
     (case k of SortUpdated \<Rightarrow> ''updated'' | SortCreated \<Rightarrow> ''created''
      | SortComments \<Rightarrow> ''comments'')"

definition sortDirection_str :: "SortDirection \<Rightarrow> string" where
  "sortDirection_str d = (case d of Asc \<Rightarrow> ''asc'' | Desc \<Rightarrow> ''desc'')"

record IssueFilters =
  f_source :: IssueSource
  f_state :: issue_state
  f_repository :: "string option"
  f_labels :: "string list option"
  f_sortOrder :: SortOrder
  f_sortDirection :: SortDirection
  f_organization :: "string option"
  f_assignee :: "string option"

record PaginatedResponse =
  items :: "NormalizedIssue list"
  totalCount :: int
  hasNextPage :: bool
  endCursor :: "string option"

section \<open>The upstream service as seen by GitHubService\<close>

text \<open>
  What the REST search endpoint returns for one issue, with the fields
  \<open>normalizeSearchIssue\<close> reads. A field the code defaults with \<open>||\<close> or reads through
  \<open>?.\<close> is optional.
\<close>

record RawUser =
  ru_id :: "int option"
  ru_login :: "string option"
  ru_avatar_url :: "string option"

record RawAssignee =
  ra_id :: int
  ra_login :: string
  ra_avatar_url :: string

record RawSearchIssue =
  raw_id :: int
  raw_node_id :: "string option"
  raw_title :: string
  raw_body :: "string option"
  raw_repository_url :: "string option"
  raw_html_url :: string
  raw_state :: string
  raw_labels :: "GitHubLabel list option"
  raw_assignees :: "RawAssignee list option"
  raw_created_at :: string
  raw_updated_at :: string
  raw_comments :: "int option"
  raw_number :: int
  raw_user :: "RawUser option"

record SearchData =
  sd_items :: "RawSearchIssue list option"
  sd_total_count :: "int option"

record SearchRequest =
  sr_q :: string
  sr_sort :: string
  sr_order :: string
  sr_page :: int
  sr_per_page :: int

text \<open>
  An HTTP exchange either fails in transport or yields a status, a body text and the
  parsed JSON. \<open>response.ok\<close> is a status in the range 200 to 299.
\<close>

datatype 'a reply = Unreachable | Http nat string 'a

definition response_ok :: "nat \<Rightarrow> bool" where
  "response_ok st = (200 \<le> st \<and> st \<le> 299)"

datatype error =
  TokenMissing
  | Transport
  | AuthFailed
  | Forbidden
  | NotFound
  | ApiError nat string
  | GraphQLFailed nat

definition getAccessToken :: "string option \<Rightarrow> error + string" where
  "getAccessToken tok =
     (case tok of
        None \<Rightarrow> Inl TokenMissing
      | Some t \<Rightarrow> if t = [] then Inl TokenMissing else Inr t)"

definition apiRequest :: "string option \<Rightarrow> 'a reply \<Rightarrow> error + 'a" where
  "apiRequest tok r =
     (case getAccessToken tok of
        Inl e \<Rightarrow> Inl e
      | Inr t \<Rightarrow>
          (case r of
             Unreachable \<Rightarrow> Inl Transport
           | Http st txt j \<Rightarrow>
               if \<not> response_ok st then
                 (if st = 401 then Inl AuthFailed
                  else if st = 403 then Inl Forbidden
                  else if st = 404 then Inl NotFound
                  else Inl (ApiError st txt))
               else Inr j))"

text \<open>
  The structured (GraphQL) surface: the shape of the \<open>projectV2\<close> query result, as far as
  \<open>fetchProjectIssues\<close> reads it. The content of an item that is not an issue has no
  number.
\<close>

record GqlField =
  gf_id :: string
  gf_name :: "string option"

record GqlFieldValue =
  fv_name :: "string option"
  fv_field :: "GqlField option"

record GqlRepository =
  nameWithOwner :: "string option"
  owner_login :: "string option"

record GqlAssignee =
  ga_id :: "int option"
  ga_login :: string
  ga_name :: "string option"
  ga_avatarUrl :: "string option"
  ga_email :: "string option"

record GqlAuthor =
  au_login :: "string option"
  au_avatarUrl :: "string option"

record GqlContent =
  c_id :: "string option"
  c_number :: "int option"
  c_title :: string
  c_body :: "string option"
  c_state :: "string option"
  c_url :: string
  c_createdAt :: string
  c_updatedAt :: string
  c_labels :: "GitHubLabel list option"
  c_assignees :: "GqlAssignee list option"
  c_author :: "GqlAuthor option"
  c_repository :: "GqlRepository option"
  c_comments :: "int option"

record GqlNode =
  n_id :: string
  n_fieldValues :: "GqlFieldValue option list option"
  n_content :: "GqlContent option"

record GqlPageInfo =
  pi_endCursor :: "string option"
  pi_hasNextPage :: "bool option"

record GqlItems =
  it_totalCount :: "int option"
  it_pageInfo :: "GqlPageInfo option"
  it_nodes :: "GqlNode list option"

record GqlProject =
  p_id :: string
  p_title :: string
  p_items :: GqlItems

record GqlResult =
  g_errors :: "string list option"
  g_organization :: "GqlProject option"
  g_user :: "GqlProject option"

datatype OwnerKind = OrganizationOwner | UserOwner

record GqlRequest =
  gq_kind :: OwnerKind
  gq_owner :: string
  gq_number :: int
  gq_first :: int
  gq_after :: "string option"

text \<open>The write operations of the REST surface, with the full target value each sends.\<close>

datatype IssueWrite =
  PatchState string string int issue_state
  | PatchAssignees string string int "string list"
  | PutLabels string string int "string list"
  | PostComment string string int string

record upstream =
  accessToken :: "string option"
  user_endpoint :: "GitHubUser reply"
  search_endpoint :: "SearchRequest \<Rightarrow> SearchData reply"
  graphql_endpoint :: "GqlRequest \<Rightarrow> GqlResult reply"
  write_endpoint :: "IssueWrite \<Rightarrow> unit reply"
  comments_endpoint :: "string \<Rightarrow> string \<Rightarrow> int \<Rightarrow> string list reply"

section \<open>GitHubService: the search strategy\<close>

definition getCurrentUser :: "upstream \<Rightarrow> error + GitHubUser" where
  "getCurrentUser up = apiRequest (accessToken up) (user_endpoint up)"

definition normalizeAssignee :: "RawAssignee \<Rightarrow> GitHubUser" where
  "normalizeAssignee a =
     \<lparr>user_id = ra_id a, login = ra_login a, user_name = ra_login a,
      avatar_url = ra_avatar_url a, email = []\<rparr>"

definition normalizeAuthor :: "RawUser option \<Rightarrow> GitHubUser" where
  "normalizeAuthor u =
     \<lparr>user_id = or_zero (case u of None \<Rightarrow> None | Some r \<Rightarrow> ru_id r),
      login = or_empty (case u of None \<Rightarrow> None | Some r \<Rightarrow> ru_login r),
      user_name = or_empty (case u of None \<Rightarrow> None | Some r \<Rightarrow> ru_login r),
      avatar_url = or_empty (case u of None \<Rightarrow> None | Some r \<Rightarrow> ru_avatar_url r),
      email = []\<rparr>"

definition normalizeSearchIssue :: "RawSearchIssue \<Rightarrow> NormalizedIssue" where
  "normalizeSearchIssue raw =
     (let repoUrl = or_empty (raw_repository_url raw);
          repoParts = split_on (CHR ''/'')
                        (replace_first ''https://api.github.com/repos/'' [] repoUrl);
          org' = part_or_empty repoParts 0;
          repoName = part_or_empty repoParts 1;
          fullName = org' @ ''/'' @ repoName
      in \<lparr>issueId = raw_id raw,
          nodeId = raw_node_id raw,
          title = raw_title raw,
          body = or_empty (raw_body raw),
          repo = fullName,
          org = org',
          url = raw_html_url raw,
          state = (if raw_state raw = ''open'' then Open else Closed),
          labels = map (\<lambda>l. \<lparr>label_name = label_name l, label_color = label_color l\<rparr>)
                     (or_nil (raw_labels raw)),
          assignees = map normalizeAssignee (or_nil (raw_assignees raw)),
          createdAt = raw_created_at raw,
          updatedAt = raw_updated_at raw,
          commentCount = or_zero (raw_comments raw),
          number = raw_number raw,
          user = normalizeAuthor (raw_user raw),
          project = None\<rparr>)"

text \<open>
  The two search fetches build the query string and send it with the sort, order, page and
  page size. The endpoint of the model receives these parameters as the code holds them
  before \<open>encodeURIComponent\<close> and the URL are applied.
\<close>

definition label_terms :: "string list option \<Rightarrow> string" where
  "label_terms ls =
     (if ls \<noteq> None \<and> length (the ls) > 0
      then '' '' @ join_sp (map (\<lambda>l. ''label:\"'' @ l @ ''\"'') (the ls)) else [])"

definition search_page :: "SearchData \<Rightarrow> int \<Rightarrow> PaginatedResponse" where
  "search_page data perPage =
     \<lparr>items = map normalizeSearchIssue (or_nil (sd_items data)),
      totalCount = or_zero (sd_total_count data),
      hasNextPage = (int (length (or_nil (sd_items data))) = perPage),
      endCursor = None\<rparr>"

definition fetchAllIssues ::
  "upstream \<Rightarrow> int \<Rightarrow> int \<Rightarrow> issue_state \<Rightarrow> string \<Rightarrow> string \<Rightarrow> string option
     \<Rightarrow> string list option \<Rightarrow> string option \<Rightarrow> error + PaginatedResponse" where
  "fetchAllIssues up page perPage st srt direction repo' labels' searchQuery =
     (case getCurrentUser up of
        Inl e \<Rightarrow> Inl e
      | Inr u \<Rightarrow>
          (let q0 = ''is:issue state:'' @ state_str st @ '' assignee:'' @ login u;
               q1 = (if truthy repo' then q0 @ '' repo:'' @ the repo' else q0);
               q2 = q1 @ label_terms labels';
               q = (if truthy searchQuery then q2 @ '' '' @ the searchQuery else q2)
           in case apiRequest (accessToken up)
                     (search_endpoint up
                        \<lparr>sr_q = q, sr_sort = srt, sr_order = direction,
                         sr_page = page, sr_per_page = perPage\<rparr>) of
                Inl e \<Rightarrow> Inl e
              | Inr data \<Rightarrow> Inr (search_page data perPage)))"

definition assignee_term :: "upstream \<Rightarrow> string option \<Rightarrow> error + string" where
  "assignee_term up assignee =
     (if assignee = Some ''me'' then
        (case getCurrentUser up of
           Inl e \<Rightarrow> Inl e
         | Inr u \<Rightarrow> Inr ('' assignee:'' @ login u))
      else if assignee = Some ''unassigned'' then Inr '' no:assignee''
      else if truthy assignee \<and> assignee \<noteq> Some ''all'' then Inr ('' assignee:'' @ the assignee)
      else Inr [])"

definition fetchOrgIssues ::
  "upstream \<Rightarrow> string \<Rightarrow> int \<Rightarrow> int \<Rightarrow> issue_state \<Rightarrow> string \<Rightarrow> string \<Rightarrow> string option
     \<Rightarrow> string option \<Rightarrow> string list option \<Rightarrow> string option
     \<Rightarrow> error + PaginatedResponse" where
  "fetchOrgIssues up org' page perPage st srt direction repo' assignee labels' searchQuery =
     (let q0 = ''is:issue state:'' @ state_str st;
          q1 = (if truthy repo' then q0 @ '' repo:'' @ the repo' else q0 @ '' org:'' @ org')
      in case assignee_term up assignee of
           Inl e \<Rightarrow> Inl e
         | Inr a \<Rightarrow>
             (let q2 = q1 @ a @ label_terms labels';
                  q = (if truthy searchQuery then q2 @ '' '' @ the searchQuery else q2)
              in case apiRequest (accessToken up)
                        (search_endpoint up
                           \<lparr>sr_q = q, sr_sort = srt, sr_order = direction,
                            sr_page = page, sr_per_page = perPage\<rparr>) of
                   Inl e \<Rightarrow> Inl e
                 | Inr data \<Rightarrow> Inr (search_page data perPage)))"

text \<open>
  A search endpoint that serves a fixed list of matching issues by offset pagination
  (page number times page size), whatever the query: the behaviour of the upstream search
  surface against which the paging scenarios are read.
\<close>

definition offset_feed :: "RawSearchIssue list \<Rightarrow> SearchRequest \<Rightarrow> SearchData reply" where
  "offset_feed feed rq =
     Http 200 []
       \<lparr>sd_items = Some (take (nat (sr_per_page rq))
                          (drop (nat ((sr_page rq - 1) * sr_per_page rq)) feed)),
        sd_total_count = Some (int (length feed))\<rparr>"

definition me :: GitHubUser where
  "me = \<lparr>user_id = 1, login = ''octocat'', user_name = ''Octo Cat'', avatar_url = [],
         email = []\<rparr>"

definition feed_upstream :: "RawSearchIssue list \<Rightarrow> upstream" where
  "feed_upstream feed =
     \<lparr>accessToken = Some ''token'', user_endpoint = Http 200 [] me,
      search_endpoint = offset_feed feed,
      graphql_endpoint = (\<lambda>rq. Unreachable),
      write_endpoint = (\<lambda>w. Unreachable),
      comments_endpoint = (\<lambda>owner rp n. Unreachable)\<rparr>"

definition raw_issue :: "nat \<Rightarrow> RawSearchIssue" where
  "raw_issue n =
     \<lparr>raw_id = 1000 + int n, raw_node_id = None, raw_title = ''issue'',
      raw_body = None,
      raw_repository_url = Some ''https://api.github.com/repos/octo/app'',
      raw_html_url = [], raw_state = ''open'', raw_labels = None, raw_assignees = None,
      raw_created_at = [], raw_updated_at = [], raw_comments = None,
      raw_number = int n, raw_user = None\<rparr>"

definition feed25 :: "RawSearchIssue list" where
  "feed25 = map raw_issue [1..<26]"

section \<open>GitHubService: the structured strategy\<close>

definition graphqlRequest :: "upstream \<Rightarrow> GqlRequest \<Rightarrow> error + GqlResult" where
  "graphqlRequest up rq =
     (case getAccessToken (accessToken up) of
        Inl e \<Rightarrow> Inl e
      | Inr t \<Rightarrow>
          (case graphql_endpoint up rq of
             Unreachable \<Rightarrow> Inl Transport
           | Http st txt j \<Rightarrow> if \<not> response_ok st then Inl (GraphQLFailed st) else Inr j))"

text \<open>
  The condition of the inner loop over an item's field values:
  \<open>fv?.name && fv?.field?.name?.toLowerCase().includes('status')\<close>.
\<close>

definition is_status_value :: "GqlFieldValue option \<Rightarrow> bool" where
  "is_status_value fv =
     (case fv of
        None \<Rightarrow> False
      | Some v \<Rightarrow>
          truthy (fv_name v)
          \<and> (case fv_field v of
                None \<Rightarrow> False
              | Some f \<Rightarrow>
                  (case gf_name f of
                     None \<Rightarrow> False
                   | Some n \<Rightarrow> includes_str ''status'' (toLowerCase n))))"

text \<open>The inner loop: the last matching field value sets both variables.\<close>

fun status_scan :: "GqlFieldValue option list \<Rightarrow> string \<times> string \<Rightarrow> string \<times> string" where
  "status_scan [] found = found"
| "status_scan (fv # fvs) found =
     status_scan fvs
       (if is_status_value fv then (the (fv_name (the fv)), gf_id (the (fv_field (the fv))))
        else found)"

definition assignee_logins :: "GqlContent \<Rightarrow> string list" where
  "assignee_logins content = map ga_login (or_nil (c_assignees content))"

definition project_issue ::
  "string \<Rightarrow> GqlProject \<Rightarrow> GqlNode \<Rightarrow> GqlContent \<Rightarrow> string \<times> string \<Rightarrow> NormalizedIssue" where
  "project_issue owner projectData node content status =
     \<lparr>issueId = the (c_number content),
      nodeId = c_id content,
      title = c_title content,
      body = or_empty (c_body content),
      repo = or_empty (case c_repository content of None \<Rightarrow> None
                       | Some r \<Rightarrow> nameWithOwner r),
      org = or_str (case c_repository content of None \<Rightarrow> None | Some r \<Rightarrow> owner_login r)
              owner,
      url = c_url content,
      state = (if (case c_state content of None \<Rightarrow> None | Some st \<Rightarrow> Some (toLowerCase st))
                    = Some ''open'' then Open else Closed),
      labels = map (\<lambda>l. \<lparr>label_name = label_name l, label_color = label_color l\<rparr>)
                 (or_nil (c_labels content)),
      assignees = map (\<lambda>a. \<lparr>user_id = or_zero (ga_id a), login = ga_login a,
                             user_name = or_str (ga_name a) (ga_login a),
                             avatar_url = or_empty (ga_avatarUrl a),
                             email = or_empty (ga_email a)\<rparr>)
                    (or_nil (c_assignees content)),
      createdAt = c_createdAt content,
      updatedAt = c_updatedAt content,
      commentCount = or_zero (c_comments content),
      number = the (c_number content),
      user = \<lparr>user_id = 0,
               login = or_empty (case c_author content of None \<Rightarrow> None
                                 | Some a \<Rightarrow> au_login a),
               user_name = or_empty (case c_author content of None \<Rightarrow> None
                                     | Some a \<Rightarrow> au_login a),
               avatar_url = or_empty (case c_author content of None \<Rightarrow> None
                                      | Some a \<Rightarrow> au_avatarUrl a),
               email = []\<rparr>,
      project = Some \<lparr>projectId = p_id projectData, projectTitle = p_title projectData,
                       statusFieldId = snd status, statusValue = fst status,
                       itemId = n_id node\<rparr>\<rparr>"

text \<open>
  The loop over the page's nodes. Each \<open>continue\<close> of the source is a branch that goes on
  with the list of issues unchanged; the last branch is \<open>issues.push\<close>.
\<close>

fun collect_nodes ::
  "string \<Rightarrow> GqlProject \<Rightarrow> string option \<Rightarrow> string option \<Rightarrow> string option
     \<Rightarrow> GqlNode list \<Rightarrow> NormalizedIssue list \<Rightarrow> NormalizedIssue list" where
  "collect_nodes owner pd statusFilter assigneeFilter repoFilter [] issues' = issues'"
| "collect_nodes owner pd statusFilter assigneeFilter repoFilter (node # rest) issues' =
     (case n_content node of
        None \<Rightarrow> collect_nodes owner pd statusFilter assigneeFilter repoFilter rest issues'
      | Some content \<Rightarrow>
          if c_number content = None \<or> c_number content = Some 0
          then collect_nodes owner pd statusFilter assigneeFilter repoFilter rest issues'
          else
            (let status = status_scan (or_nil (n_fieldValues node)) ([], [])
             in if truthy statusFilter \<and> statusFilter \<noteq> Some ''all''
                    \<and> toLowerCase (fst status) \<noteq> toLowerCase (the statusFilter)
                then collect_nodes owner pd statusFilter assigneeFilter repoFilter rest issues'
                else if truthy repoFilter
                    \<and> (case c_repository content of None \<Rightarrow> None | Some r \<Rightarrow> nameWithOwner r)
                        \<noteq> repoFilter
                then collect_nodes owner pd statusFilter assigneeFilter repoFilter rest issues'
                else if truthy assigneeFilter
                    \<and> ((assigneeFilter = Some ''unassigned''
                           \<and> length (assignee_logins content) > 0)
                        \<or> (assigneeFilter \<noteq> Some ''all''
                           \<and> assigneeFilter \<noteq> Some ''unassigned''
                           \<and> the assigneeFilter \<notin> set (assignee_logins content)))
                then collect_nodes owner pd statusFilter assigneeFilter repoFilter rest issues'
                else collect_nodes owner pd statusFilter assigneeFilter repoFilter rest
                       (issues' @ [project_issue owner pd node content status])))"

definition empty_page :: PaginatedResponse where
  "empty_page = \<lparr>items = [], totalCount = 0, hasNextPage = False, endCursor = None\<rparr>"

text \<open>What \<open>fetchProjectIssues\<close> makes of the result it ends up with, after the requests.\<close>

definition project_page ::
  "string \<Rightarrow> string option \<Rightarrow> string option \<Rightarrow> string option \<Rightarrow> GqlResult
     \<Rightarrow> PaginatedResponse" where
  "project_page owner statusFilter assigneeFilter repoFilter result =
     (if g_errors result \<noteq> None then empty_page
      else
        (case (if g_organization result \<noteq> None then g_organization result
               else g_user result) of
           None \<Rightarrow> empty_page
         | Some projectData \<Rightarrow>
             (let itemsData = p_items projectData
              in \<lparr>items = collect_nodes owner projectData statusFilter assigneeFilter repoFilter
                            (or_nil (it_nodes itemsData)) [],
                  totalCount = or_zero (it_totalCount itemsData),
                  hasNextPage = (case it_pageInfo itemsData of
                                   None \<Rightarrow> False
                                 | Some info \<Rightarrow> (case pi_hasNextPage info of
                                                None \<Rightarrow> False | Some b \<Rightarrow> b)),
                  endCursor = (case it_pageInfo itemsData of
                                 None \<Rightarrow> None | Some info \<Rightarrow> pi_endCursor info)\<rparr>)))"

text \<open>
  The requests that one call of \<open>graphqlRequest\<close> sends: none when \<open>getAccessToken\<close> throws
  (no \<open>fetch\<close> is reached), the one request otherwise.
\<close>

definition graphql_sent :: "upstream \<Rightarrow> GqlRequest \<Rightarrow> GqlRequest list" where
  "graphql_sent up rq =
     (case getAccessToken (accessToken up) of Inl e \<Rightarrow> [] | Inr t \<Rightarrow> [rq])"

text \<open>
  \<open>fetchProjectIssues\<close>, returning the requests it sent, in order, beside its result. The
  \<open>try\<close> block calls \<open>graphqlRequest\<close> with the organization query and throws when it
  finds neither a project nor errors; the \<open>catch\<close> block, which any exception of the \<open>try\<close>
  block reaches, calls \<open>graphqlRequest\<close> with the user query. An exception of the user
  query leaves the function.
\<close>

definition fetchProjectIssues ::
  "upstream \<Rightarrow> string \<Rightarrow> int \<Rightarrow> string option \<Rightarrow> int \<Rightarrow> string option \<Rightarrow> string option
     \<Rightarrow> string option \<Rightarrow> GqlRequest list \<times> (error + PaginatedResponse)" where
  "fetchProjectIssues up owner projectNumber cursor perPage statusFilter assigneeFilter
       repoFilter =
     (let vars = (\<lambda>k. \<lparr>gq_kind = k, gq_owner = owner, gq_number = projectNumber,
                        gq_first = perPage,
                        gq_after = (if truthy cursor then cursor else None)\<rparr>);
          attempt = graphqlRequest up (vars OrganizationOwner);
          caught = (case attempt of
                      Inl e \<Rightarrow> True
                    | Inr result \<Rightarrow> g_organization result = None \<and> g_errors result = None);
          sent = (if caught
                  then graphql_sent up (vars OrganizationOwner) @ graphql_sent up (vars UserOwner)
                  else graphql_sent up (vars OrganizationOwner));
          final = (if caught then graphqlRequest up (vars UserOwner) else attempt)
      in (sent,
          case final of
            Inl e \<Rightarrow> Inl e
          | Inr result \<Rightarrow>
              Inr (project_page owner statusFilter assigneeFilter repoFilter result)))"

text \<open>
  The client-side predicates of the structured strategy, stated per node: the node carries
  an issue number, and its status, repository and assignees satisfy the requested filters.
  An absent or empty filter, and the filter \<open>all\<close> for status and assignee, accept every node.
\<close>

definition node_status :: "GqlNode \<Rightarrow> string \<times> string" where
  "node_status node = status_scan (or_nil (n_fieldValues node)) ([], [])"

definition has_issue_number :: "GqlNode \<Rightarrow> bool" where
  "has_issue_number node =
     (case n_content node of
        None \<Rightarrow> False
      | Some c \<Rightarrow> (case c_number c of None \<Rightarrow> False | Some n \<Rightarrow> n \<noteq> 0))"

definition passes_status :: "string option \<Rightarrow> GqlNode \<Rightarrow> bool" where
  "passes_status statusFilter node =
     (case statusFilter of
        None \<Rightarrow> True
      | Some f \<Rightarrow> f = [] \<or> f = ''all''
                  \<or> toLowerCase (fst (node_status node)) = toLowerCase f)"

definition passes_repo :: "string option \<Rightarrow> GqlNode \<Rightarrow> bool" where
  "passes_repo repoFilter node =
     (case repoFilter of
        None \<Rightarrow> True
      | Some f \<Rightarrow> f = []
                  \<or> (case n_content node of
                        None \<Rightarrow> False
                      | Some c \<Rightarrow> (case c_repository c of
                                     None \<Rightarrow> False
                                   | Some r \<Rightarrow> nameWithOwner r = Some f)))"

definition passes_assignee :: "string option \<Rightarrow> GqlNode \<Rightarrow> bool" where
  "passes_assignee assigneeFilter node =
     (case assigneeFilter of
        None \<Rightarrow> True
      | Some f \<Rightarrow> f = [] \<or> f = ''all''
                  \<or> (case n_content node of
                        None \<Rightarrow> False
                      | Some c \<Rightarrow> if f = ''unassigned'' then assignee_logins c = []
                                  else f \<in> set (assignee_logins c)))"

definition kept :: "string option \<Rightarrow> string option \<Rightarrow> string option \<Rightarrow> GqlNode \<Rightarrow> bool" where
  "kept statusFilter assigneeFilter repoFilter node =
     (has_issue_number node \<and> passes_status statusFilter node
      \<and> passes_repo repoFilter node \<and> passes_assignee assigneeFilter node)"

definition node_issue :: "string \<Rightarrow> GqlProject \<Rightarrow> GqlNode \<Rightarrow> NormalizedIssue" where
  "node_issue owner pd node =
     project_issue owner pd node (the (n_content node)) (node_status node)"

definition resolved_project :: "GqlResult \<Rightarrow> GqlProject option" where
  "resolved_project result =
     (if g_organization result \<noteq> None then g_organization result else g_user result)"

text \<open>A project page of ten issue nodes, the last three of which are done.\<close>

definition demo_node :: "nat \<Rightarrow> GqlNode" where
  "demo_node n =
     \<lparr>n_id = ''item'',
      n_fieldValues =
        Some [Some \<lparr>fv_name = Some (if n < 7 then ''In Progress'' else ''Done''),
                    fv_field = Some \<lparr>gf_id = ''F1'', gf_name = Some ''Status''\<rparr>\<rparr>],
      n_content =
        Some \<lparr>c_id = None, c_number = Some (int n + 1), c_title = ''t'', c_body = None,
              c_state = Some ''OPEN'', c_url = [], c_createdAt = [], c_updatedAt = [],
              c_labels = None, c_assignees = None, c_author = None,
              c_repository = Some \<lparr>nameWithOwner = Some ''octo/app'',
                                   owner_login = Some ''octo''\<rparr>,
              c_comments = None\<rparr>\<rparr>"

definition demo_project :: GqlProject where
  "demo_project =
     \<lparr>p_id = ''P1'', p_title = ''Board'',
      p_items = \<lparr>it_totalCount = Some 42,
                 it_pageInfo = Some \<lparr>pi_endCursor = Some ''c10'',
                                      pi_hasNextPage = Some True\<rparr>,
                 it_nodes = Some (map demo_node [0..<10])\<rparr>\<rparr>"

definition demo_result :: GqlResult where
  "demo_result = \<lparr>g_errors = None, g_organization = Some demo_project, g_user = None\<rparr>"

definition demo_upstream :: upstream where
  "demo_upstream =
     \<lparr>accessToken = Some ''token'', user_endpoint = Http 200 [] me,
      search_endpoint = offset_feed [],
      graphql_endpoint = (\<lambda>rq. Http 200 [] demo_result),
      write_endpoint = (\<lambda>w. Unreachable),
      comments_endpoint = (\<lambda>owner rp n. Unreachable)\<rparr>"

text \<open>
  An upstream whose organization query finds no project and reports no error, and whose
  user query finds the project.
\<close>

definition user_owned_upstream :: upstream where
  "user_owned_upstream =
     \<lparr>accessToken = Some ''token'', user_endpoint = Http 200 [] me,
      search_endpoint = offset_feed [],
      graphql_endpoint =
        (\<lambda>rq. if gq_kind rq = OrganizationOwner
              then Http 200 [] \<lparr>g_errors = None, g_organization = None, g_user = None\<rparr>
              else Http 200 [] \<lparr>g_errors = None, g_organization = None,
                                g_user = Some demo_project\<rparr>),
      write_endpoint = (\<lambda>w. Unreachable),
      comments_endpoint = (\<lambda>owner rp n. Unreachable)\<rparr>"

text \<open>
  An upstream whose gateway answers the organization query with status 502, and whose user
  query finds no project and reports no error.
\<close>

definition org_failing_upstream :: upstream where
  "org_failing_upstream =
     \<lparr>accessToken = Some ''token'', user_endpoint = Http 200 [] me,
      search_endpoint = offset_feed [],
      graphql_endpoint =
        (\<lambda>rq. if gq_kind rq = OrganizationOwner
              then Http 502 ''Bad Gateway''
                     \<lparr>g_errors = None, g_organization = None, g_user = None\<rparr>
              else Http 200 [] \<lparr>g_errors = None, g_organization = None, g_user = None\<rparr>),
      write_endpoint = (\<lambda>w. Unreachable),
      comments_endpoint = (\<lambda>owner rp n. Unreachable)\<rparr>"

definition project_vars :: "OwnerKind \<Rightarrow> string \<Rightarrow> int \<Rightarrow> string option \<Rightarrow> int \<Rightarrow> GqlRequest" where
  "project_vars k owner projectNumber cursor perPage =
     \<lparr>gq_kind = k, gq_owner = owner, gq_number = projectNumber, gq_first = perPage,
      gq_after = (if truthy cursor then cursor else None)\<rparr>"

section \<open>MainScreen: the deck and its swipe controller\<close>

text \<open>
  The component's state variables and refs are the fields of one record. A state setter
  is a field update; the handlers below never read a state variable after setting it, so
  it does not matter that React applies the update at the next render. Beside them the
  record holds what the component hands to its environment and gets back later: the
  armed timeouts (handle and the \<open>newIndex\<close> its callback captured), the completion
  callbacks of the settle springs that have not been invoked yet (each with the
  \<open>newIndex\<close> it captured), and the page requests sent. \<open>screenWidth\<close> is
  \<open>SCREEN_WIDTH\<close>. Logging and alert dialogs are left out.
\<close>

record Spring =
  toValue :: real
  friction :: real
  tension :: real

record FetchRequest =
  fr_page :: int
  fr_reset :: bool
  fr_filters :: IssueFilters

record MainScreen =
  issues :: "NormalizedIssue list"
  currentIndex :: int
  loading :: bool
  loadingMore :: bool
  shownTotal :: int
  page :: int
  hasMore :: bool
  filters :: IssueFilters
  orgs :: "string list"
  detailVisible :: bool
  selectedIssue :: "NormalizedIssue option"
  position :: real
  spring :: "Spring option"
  settling :: "int list"
  isAnimatingRef :: bool
  currentIndexRef :: int
  issuesRef :: "NormalizedIssue list"
  safetyTimerRef :: "nat option"
  timers :: "(nat \<times> int) list"
  timerCount :: nat
  requested :: "FetchRequest list"
  screenWidth :: real

definition SWIPE_THRESHOLD :: real where
  "SWIPE_THRESHOLD = 50"

definition SWIPE_VELOCITY_THRESHOLD :: real where
  "SWIPE_VELOCITY_THRESHOLD = 25 / 100"

datatype direction = SwipeLeft | SwipeRight

text \<open>Timeout handles are positive, so a stored handle is always truthy.\<close>

definition resetAnimationLock :: "MainScreen \<Rightarrow> MainScreen" where
  "resetAnimationLock s =
     (case safetyTimerRef s of
        None \<Rightarrow> s
      | Some h \<Rightarrow> s\<lparr>timers := filter (\<lambda>t. fst t \<noteq> h) (timers s),
                    safetyTimerRef := None\<rparr>)
     \<lparr>isAnimatingRef := False\<rparr>"

definition completeSwipe :: "int \<Rightarrow> MainScreen \<Rightarrow> MainScreen" where
  "completeSwipe newIndex s =
     resetAnimationLock
       (s\<lparr>position := 0, spring := None, currentIndexRef := newIndex,
          currentIndex := newIndex\<rparr>)"

definition forceSwipe :: "direction \<Rightarrow> MainScreen \<Rightarrow> MainScreen" where
  "forceSwipe dir s =
     (if isAnimatingRef s then s
      else
        (let idx = currentIndexRef s;
             len = int (length (issuesRef s));
             newIndex = (if dir = SwipeLeft then idx + 1 else idx - 1)
         in if newIndex < 0 \<or> newIndex \<ge> len
            then s\<lparr>spring := Some \<lparr>toValue = 0, friction = 6, tension = 80\<rparr>\<rparr>
            else
              (let h = Suc (timerCount s);
                   toX = (if dir = SwipeLeft then - screenWidth s * (15 / 10)
                          else screenWidth s * (15 / 10))
               in s\<lparr>isAnimatingRef := True,
                    safetyTimerRef := Some h,
                    timers := timers s @ [(h, newIndex)],
                    timerCount := h,
                    spring := Some \<lparr>toValue = toX, friction = 8, tension = 40\<rparr>,
                    settling := settling s @ [newIndex]\<rparr>)))"

text \<open>The timeout with handle \<open>h\<close> fires: its callback runs once and the timeout is gone.\<close>

definition safetyTimeout :: "nat \<Rightarrow> MainScreen \<Rightarrow> MainScreen" where
  "safetyTimeout h s =
     (case map_of (timers s) h of
        None \<Rightarrow> s
      | Some newIndex \<Rightarrow>
          (let s1 = s\<lparr>timers := filter (\<lambda>t. fst t \<noteq> h) (timers s)\<rparr>
           in if isAnimatingRef s1 then completeSwipe newIndex s1 else s1))"

text \<open>The animation subsystem invokes a pending completion callback.\<close>

definition settleEnd :: "int \<Rightarrow> MainScreen \<Rightarrow> MainScreen" where
  "settleEnd newIndex s =
     (if newIndex \<in> set (settling s)
      then completeSwipe newIndex (s\<lparr>settling := remove1 newIndex (settling s)\<rparr>)
      else s)"

text \<open>
  Displacements and velocities are real numbers: the comparisons are those of the source on
  finite doubles, and the product \<open>|dy| * 1.5\<close> is the exact one, where the source rounds it
  to the nearest double.
\<close>

definition onMoveShouldSetPanResponder :: "MainScreen \<Rightarrow> real \<Rightarrow> real \<Rightarrow> bool" where
  "onMoveShouldSetPanResponder s dx dy =
     (if isAnimatingRef s then False
      else \<bar>dx\<bar> > 15 \<and> \<bar>dx\<bar> > \<bar>dy\<bar> * (15 / 10))"

definition onPanResponderGrant :: "MainScreen \<Rightarrow> MainScreen" where
  "onPanResponderGrant s = resetAnimationLock (s\<lparr>spring := None, position := 0\<rparr>)"

definition onPanResponderMove :: "real \<Rightarrow> MainScreen \<Rightarrow> MainScreen" where
  "onPanResponderMove dx s = s\<lparr>spring := None, position := dx\<rparr>"

definition swipedLeft :: "real \<Rightarrow> real \<Rightarrow> bool" where
  "swipedLeft dx vx =
     (dx < - SWIPE_THRESHOLD \<or> (dx < - 25 \<and> vx < - SWIPE_VELOCITY_THRESHOLD))"

definition swipedRight :: "real \<Rightarrow> real \<Rightarrow> bool" where
  "swipedRight dx vx =
     (dx > SWIPE_THRESHOLD \<or> (dx > 25 \<and> vx > SWIPE_VELOCITY_THRESHOLD))"

definition onPanResponderRelease :: "real \<Rightarrow> real \<Rightarrow> MainScreen \<Rightarrow> MainScreen" where
  "onPanResponderRelease dx vx s =
     (if swipedLeft dx vx then forceSwipe SwipeLeft s
      else if swipedRight dx vx then forceSwipe SwipeRight s
      else s\<lparr>spring := Some \<lparr>toValue = 0, friction = 7, tension = 80\<rparr>\<rparr>)"

definition onPanResponderTerminate :: "MainScreen \<Rightarrow> MainScreen" where
  "onPanResponderTerminate s = resetAnimationLock (s\<lparr>spring := None, position := 0\<rparr>)"

subsection \<open>Fetching pages\<close>

text \<open>
  \<open>fetchIssues\<close> is asynchronous. \<open>fetchIssues_begin\<close> is its part before the \<open>await\<close>,
  which sends the request (or returns early when the organization source has no
  organization); \<open>fetchIssues_finish\<close> is its part after the \<open>await\<close>, run with what the
  service call produced. Other handlers may run between the two.
\<close>

definition fetch_target :: "IssueFilters \<Rightarrow> bool" where
  "fetch_target f = (f_source f = SourceAll \<or> truthy (f_organization f))"

definition fetchIssues_begin :: "int \<Rightarrow> bool \<Rightarrow> MainScreen \<Rightarrow> MainScreen" where
  "fetchIssues_begin pageNum isReset s =
     (let s1 = (if isReset then s\<lparr>loading := True\<rparr> else s\<lparr>loadingMore := True\<rparr>)
      in if fetch_target (filters s)
         then s1\<lparr>requested := requested s1
                    @ [\<lparr>fr_page = pageNum, fr_reset = isReset, fr_filters = filters s\<rparr>]\<rparr>
         else s1\<lparr>loading := False, loadingMore := False\<rparr>)"

definition fetchIssues_service ::
  "upstream \<Rightarrow> IssueFilters \<Rightarrow> int \<Rightarrow> error + PaginatedResponse" where
  "fetchIssues_service up f pageNum =
     (if f_source f = SourceAll
      then fetchAllIssues up pageNum 20 (f_state f) (sortOrder_str (f_sortOrder f))
             (sortDirection_str (f_sortDirection f)) (f_repository f) (f_labels f) None
      else fetchOrgIssues up (the (f_organization f)) pageNum 20 (f_state f)
             (sortOrder_str (f_sortOrder f)) (sortDirection_str (f_sortDirection f))
             (f_repository f) (f_assignee f) (f_labels f) None)"

definition fetchIssues_finish ::
  "int \<Rightarrow> bool \<Rightarrow> error + PaginatedResponse \<Rightarrow> MainScreen \<Rightarrow> MainScreen" where
  "fetchIssues_finish pageNum isReset outcome s =
     (case outcome of
        Inl e \<Rightarrow> s
      | Inr result \<Rightarrow>
          (if isReset then s\<lparr>issues := items result, currentIndex := 0\<rparr>
           else s\<lparr>issues := issues s @ items result\<rparr>)
          \<lparr>shownTotal := totalCount result, hasMore := hasNextPage result,
           page := pageNum\<rparr>)
     \<lparr>loading := False, loadingMore := False\<rparr>"

text \<open>A call of \<open>fetchIssues\<close> during which nothing else happens.\<close>

definition fetchIssues :: "upstream \<Rightarrow> int \<Rightarrow> bool \<Rightarrow> MainScreen \<Rightarrow> MainScreen" where
  "fetchIssues up pageNum isReset s =
     (if fetch_target (filters s)
      then fetchIssues_finish pageNum isReset (fetchIssues_service up (filters s) pageNum)
             (fetchIssues_begin pageNum isReset s)
      else fetchIssues_begin pageNum isReset s)"

subsection \<open>Filters and the effects that run after a render\<close>

definition filterDeps ::
  "IssueFilters \<Rightarrow> IssueSource \<times> issue_state \<times> SortOrder \<times> SortDirection
     \<times> string option \<times> string option \<times> string option" where
  "filterDeps f =
     (f_source f, f_state f, f_sortOrder f, f_sortDirection f,
      f_repository f, f_organization f, f_assignee f)"

definition resetDeck :: "MainScreen \<Rightarrow> MainScreen" where
  "resetDeck s = s\<lparr>issues := [], currentIndex := 0, page := 1, hasMore := True\<rparr>"

definition filtersEffect :: "MainScreen \<Rightarrow> MainScreen" where
  "filtersEffect s = fetchIssues_begin 1 True (resetDeck s)"

definition syncRefs :: "MainScreen \<Rightarrow> MainScreen \<Rightarrow> MainScreen" where
  "syncRefs old s =
     (if currentIndex s \<noteq> currentIndex old then s\<lparr>currentIndexRef := currentIndex s\<rparr>
      else s)
     \<lparr>issuesRef := issues s\<rparr>"

definition autoLoadMore :: "MainScreen \<Rightarrow> MainScreen \<Rightarrow> MainScreen" where
  "autoLoadMore old s =
     (if (currentIndex s, length (issues s), hasMore s, loadingMore s, page s)
           \<noteq> (currentIndex old, length (issues old), hasMore old, loadingMore old, page old)
         \<and> length (issues s) > 0
         \<and> currentIndex s \<ge> int (length (issues s)) - 3
         \<and> hasMore s \<and> \<not> loadingMore s
      then fetchIssues_begin (page s + 1) False s
      else s)"

text \<open>
  The effects after a handler has run, given the state \<open>old\<close> of the previous render:
  the filter effect when one of its dependencies changed, the two effects that copy
  state into the refs, and the effect that loads more.
\<close>

definition render :: "MainScreen \<Rightarrow> MainScreen \<Rightarrow> MainScreen" where
  "render old s =
     autoLoadMore old
       (syncRefs old
          (if filterDeps (filters s) \<noteq> filterDeps (filters old) then filtersEffect s
           else s))"

definition handleSourceChange :: "IssueSource \<Rightarrow> MainScreen \<Rightarrow> MainScreen" where
  "handleSourceChange source s =
     s\<lparr>filters :=
          \<lparr>f_source = source, f_state = Open, f_repository = None, f_labels = None,
           f_sortOrder = SortUpdated, f_sortDirection = Desc,
           f_organization = (if source = SourceOrganization \<and> length (orgs s) > 0
                             then Some (hd (orgs s)) else None),
           f_assignee = None\<rparr>\<rparr>"

definition handleFiltersChange :: "IssueFilters \<Rightarrow> MainScreen \<Rightarrow> MainScreen" where
  "handleFiltersChange newFilters s = s\<lparr>filters := newFilters\<rparr>"

definition handleOpenDetail :: "MainScreen \<Rightarrow> MainScreen" where
  "handleOpenDetail s =
     (if 0 \<le> currentIndex s \<and> currentIndex s < int (length (issues s))
      then s\<lparr>selectedIssue := Some (issues s ! nat (currentIndex s)),
             detailVisible := True\<rparr>
      else s)"

definition handleIssueUpdated :: "NormalizedIssue \<Rightarrow> MainScreen \<Rightarrow> MainScreen" where
  "handleIssueUpdated updated s =
     s\<lparr>issues := map (\<lambda>i. if issueId i = issueId updated \<and> repo i = repo updated
                            then updated else i) (issues s),
       selectedIssue := Some updated\<rparr>"

subsection \<open>The controller as a transition system\<close>

text \<open>
  Everything that can happen to the mounted screen, one handler at a time on the single
  thread: the user changes the source or the filters, a pending \<open>fetchIssues\<close> call
  resumes with the outcome of its service call, the pan responder reports a gesture, a
  timeout fires, the animation subsystem reports the end of a settle, the detail view is
  opened or reports an updated issue. A gesture is granted only where
  \<open>onMoveShouldSetPanResponder\<close> answers true. After each handler the effects run.
\<close>

datatype event =
  SourceChange IssueSource
  | FiltersChange IssueFilters
  | FetchSettled int bool "error + PaginatedResponse"
  | Grant real real
  | Move real
  | Release real real
  | Terminate
  | SafetyTimeout nat
  | SettleEnd int
  | OpenDetail
  | IssueUpdated NormalizedIssue

fun handle :: "event \<Rightarrow> MainScreen \<Rightarrow> MainScreen" where
  "handle (SourceChange source) s = handleSourceChange source s"
| "handle (FiltersChange f) s = handleFiltersChange f s"
| "handle (FetchSettled pageNum isReset outcome) s =
     fetchIssues_finish pageNum isReset outcome s"
| "handle (Grant dx dy) s =
     (if onMoveShouldSetPanResponder s dx dy then onPanResponderGrant s else s)"
| "handle (Move dx) s = onPanResponderMove dx s"
| "handle (Release dx vx) s = onPanResponderRelease dx vx s"
| "handle Terminate s = onPanResponderTerminate s"
| "handle (SafetyTimeout h) s = safetyTimeout h s"
| "handle (SettleEnd newIndex) s = settleEnd newIndex s"
| "handle OpenDetail s = handleOpenDetail s"
| "handle (IssueUpdated updated) s = handleIssueUpdated updated s"

definition step :: "event \<Rightarrow> MainScreen \<Rightarrow> MainScreen" where
  "step e s = render s (handle e s)"

fun run :: "event list \<Rightarrow> MainScreen \<Rightarrow> MainScreen" where
  "run [] s = s"
| "run (e # es) s = run es (step e s)"

text \<open>The state of the first render, and the screen once its mount effects have run.\<close>

definition initialScreen :: "real \<Rightarrow> MainScreen" where
  "initialScreen w =
     \<lparr>issues = [], currentIndex = 0, loading = True, loadingMore = False, shownTotal = 0,
      page = 1, hasMore = True,
      filters = \<lparr>f_source = SourceAll, f_state = Open, f_repository = None,
                 f_labels = None, f_sortOrder = SortUpdated, f_sortDirection = Desc,
                 f_organization = None, f_assignee = None\<rparr>,
      orgs = [], detailVisible = False, selectedIssue = None, position = 0,
      spring = None, settling = [], isAnimatingRef = False, currentIndexRef = 0,
      issuesRef = [], safetyTimerRef = None, timers = [], timerCount = 0,
      requested = [], screenWidth = w\<rparr>"

definition mounted :: "real \<Rightarrow> MainScreen" where
  "mounted w = filtersEffect (initialScreen w)"

subsection \<open>FilterBar and the events of the running screen\<close>

text \<open>
  \<open>handleFiltersChange\<close> is the \<open>onFiltersChange\<close> prop of \<open>FilterBar\<close> and is called
  nowhere else. \<open>FilterBar\<close> calls it through \<open>update(partial)\<close>, which passes
  \<open>{...filters, ...partial}\<close> for the filters of the current render, and it calls \<open>update\<close>
  in five places: the state chip, the direction chip, and the organization, assignee and
  sort pickers, each with the \<open>id\<close> of the picked item.
\<close>

datatype press =
  StateChip
  | DirectionChip
  | OrganizationPicked string
  | AssigneePicked string
  | SortPicked SortOrder

fun update :: "IssueFilters \<Rightarrow> press \<Rightarrow> IssueFilters" where
  "update f StateChip = f\<lparr>f_state := (if f_state f = Open then Closed else Open)\<rparr>"
| "update f DirectionChip =
     f\<lparr>f_sortDirection := (if f_sortDirection f = Desc then Asc else Desc)\<rparr>"
| "update f (OrganizationPicked ident) =
     f\<lparr>f_organization := Some ident, f_assignee := None\<rparr>"
| "update f (AssigneePicked ident) =
     f\<lparr>f_assignee := (if ident \<noteq> [] then Some ident else None)\<rparr>"
| "update f (SortPicked ident) = f\<lparr>f_sortOrder := ident\<rparr>"

text \<open>
  What happens to the screen as the app runs it: a press in \<open>FilterBar\<close>, the arrival of
  the user's organizations (the initial-data effect calls \<open>setOrgs\<close>), or one of the events
  above. Among those, \<open>FiltersChange\<close> with filters of its own does not occur, since only
  \<open>FilterBar\<close> calls the handler; it is skipped.
\<close>

datatype app_event =
  Press press
  | OrgsLoaded "string list"
  | Occurs event

fun app_step :: "app_event \<Rightarrow> MainScreen \<Rightarrow> MainScreen" where
  "app_step (Press p) s = step (FiltersChange (update (filters s) p)) s"
| "app_step (OrgsLoaded userOrgs) s = render s (s\<lparr>orgs := userOrgs\<rparr>)"
| "app_step (Occurs (FiltersChange f)) s = s"
| "app_step (Occurs e) s = step e s"

fun app_run :: "app_event list \<Rightarrow> MainScreen \<Rightarrow> MainScreen" where
  "app_run [] s = s"
| "app_run (e # es) s = app_run es (app_step e s)"

subsection \<open>Sequences of page fetches\<close>

text \<open>
  Loading further pages one after the other, as the load-more effect does: each call asks
  for the page after the last one that arrived. Each call may see a different upstream,
  since the feed may change between two requests.
\<close>

fun load_more :: "upstream list \<Rightarrow> MainScreen \<Rightarrow> MainScreen" where
  "load_more [] s = s"
| "load_more (up # ups) s = load_more ups (fetchIssues up (page s + 1) False s)"

definition page_items :: "upstream \<Rightarrow> MainScreen \<Rightarrow> NormalizedIssue list" where
  "page_items up s =
     (if fetch_target (filters s)
      then (case fetchIssues_service up (filters s) (page s + 1) of
              Inl e \<Rightarrow> [] | Inr result \<Rightarrow> items result)
      else [])"

fun appended :: "upstream list \<Rightarrow> MainScreen \<Rightarrow> NormalizedIssue list" where
  "appended [] s = []"
| "appended (up # ups) s =
     page_items up s @ appended ups (fetchIssues up (page s + 1) False s)"

definition issue_key :: "NormalizedIssue \<Rightarrow> string \<times> int" where
  "issue_key i = (repo i, number i)"

section \<open>IssueDetailModal: the mutation handlers\<close>

record ModalState =
  actionLoading :: "string option"
  comments :: "string list"
  newComment :: string
  showCommentInput :: bool

definition repoParts :: "NormalizedIssue \<Rightarrow> string \<times> string" where
  "repoParts i =
     (let parts = split_on (CHR ''/'') (repo i)
      in (part_or_empty parts 0, part_or_empty parts 1))"

definition updateIssueState ::
  "upstream \<Rightarrow> string \<Rightarrow> string \<Rightarrow> int \<Rightarrow> issue_state \<Rightarrow> error + unit" where
  "updateIssueState up owner rp issueNumber st =
     apiRequest (accessToken up) (write_endpoint up (PatchState owner rp issueNumber st))"

definition assignIssue ::
  "upstream \<Rightarrow> string \<Rightarrow> string \<Rightarrow> int \<Rightarrow> string list \<Rightarrow> error + unit" where
  "assignIssue up owner rp issueNumber logins =
     apiRequest (accessToken up)
       (write_endpoint up (PatchAssignees owner rp issueNumber logins))"

definition updateLabels ::
  "upstream \<Rightarrow> string \<Rightarrow> string \<Rightarrow> int \<Rightarrow> string list \<Rightarrow> error + unit" where
  "updateLabels up owner rp issueNumber names =
     apiRequest (accessToken up) (write_endpoint up (PutLabels owner rp issueNumber names))"

definition addComment ::
  "upstream \<Rightarrow> string \<Rightarrow> string \<Rightarrow> int \<Rightarrow> string \<Rightarrow> error + unit" where
  "addComment up owner rp issueNumber text' =
     apiRequest (accessToken up)
       (write_endpoint up (PostComment owner rp issueNumber text'))"

definition getIssueComments ::
  "upstream \<Rightarrow> string \<Rightarrow> string \<Rightarrow> int \<Rightarrow> error + string list" where
  "getIssueComments up owner rp issueNumber =
     apiRequest (accessToken up) (comments_endpoint up owner rp issueNumber)"

text \<open>
  \<open>trim\<close> removes white space and line terminators at both ends; below 256 these are the
  space, the tab, the line feed, the vertical tab, the form feed, the carriage return and
  the no-break space.
\<close>

definition is_space :: "char \<Rightarrow> bool" where
  "is_space c = (c = CHR '' '' \<or> c = CHR 0x09 \<or> c = CHR 0x0A \<or> c = CHR 0x0B \<or> c = CHR 0x0C
                 \<or> c = CHR 0x0D \<or> c = CHR 0xA0)"

definition trim :: "string \<Rightarrow> string" where
  "trim s = rev (dropWhile is_space (rev (dropWhile is_space s)))"

text \<open>
  Each handler works on the \<open>issue\<close> prop, which is the screen's \<open>selectedIssue\<close>, and
  reports an update through \<open>onIssueUpdated\<close>, which is the screen's
  \<open>handleIssueUpdated\<close>. The call that follows the \<open>await\<close> is reached only when the
  service call did not throw.
\<close>

definition handleToggleState ::
  "upstream \<Rightarrow> ModalState \<times> MainScreen \<Rightarrow> ModalState \<times> MainScreen" where
  "handleToggleState up ms =
     (case selectedIssue (snd ms) of
        None \<Rightarrow> ms
      | Some issue \<Rightarrow>
          (let newState = (if state issue = Open then Closed else Open)
           in case updateIssueState up (fst (repoParts issue)) (snd (repoParts issue))
                     (number issue) newState of
                Inl e \<Rightarrow> ((fst ms)\<lparr>actionLoading := None\<rparr>, snd ms)
              | Inr ok \<Rightarrow>
                  ((fst ms)\<lparr>actionLoading := None\<rparr>,
                   handleIssueUpdated (issue\<lparr>state := newState\<rparr>) (snd ms))))"

definition handleAssign ::
  "upstream \<Rightarrow> string \<Rightarrow> ModalState \<times> MainScreen \<Rightarrow> ModalState \<times> MainScreen" where
  "handleAssign up lg ms =
     (case selectedIssue (snd ms) of
        None \<Rightarrow> ms
      | Some issue \<Rightarrow>
          (let currentAssignees = map login (assignees issue);
               newAssignees = (if lg \<in> set currentAssignees
                               then filter (\<lambda>a. a \<noteq> lg) currentAssignees
                               else currentAssignees @ [lg])
           in case assignIssue up (fst (repoParts issue)) (snd (repoParts issue))
                     (number issue) newAssignees of
                Inl e \<Rightarrow> ((fst ms)\<lparr>actionLoading := None\<rparr>, snd ms)
              | Inr ok \<Rightarrow>
                  (let updatedAssignees =
                         map (\<lambda>l. case find (\<lambda>a. login a = l) (assignees issue) of
                                    Some existing \<Rightarrow> existing
                                  | None \<Rightarrow> \<lparr>user_id = 0, login = l, user_name = l,
                                             avatar_url = [], email = []\<rparr>)
                           newAssignees
                   in ((fst ms)\<lparr>actionLoading := None\<rparr>,
                       handleIssueUpdated (issue\<lparr>assignees := updatedAssignees\<rparr>)
                         (snd ms)))))"

definition handleToggleLabel ::
  "upstream \<Rightarrow> string \<Rightarrow> ModalState \<times> MainScreen \<Rightarrow> ModalState \<times> MainScreen" where
  "handleToggleLabel up labelName ms =
     (case selectedIssue (snd ms) of
        None \<Rightarrow> ms
      | Some issue \<Rightarrow>
          (let currentLabels = map label_name (labels issue);
               newLabels = (if labelName \<in> set currentLabels
                            then filter (\<lambda>l. l \<noteq> labelName) currentLabels
                            else currentLabels @ [labelName])
           in case updateLabels up (fst (repoParts issue)) (snd (repoParts issue))
                     (number issue) newLabels of
                Inl e \<Rightarrow> ((fst ms)\<lparr>actionLoading := None\<rparr>, snd ms)
              | Inr ok \<Rightarrow>
                  ((fst ms)\<lparr>actionLoading := None\<rparr>,
                   handleIssueUpdated
                     (issue\<lparr>labels :=
                        map (\<lambda>n. case find (\<lambda>l. label_name l = n) (labels issue) of
                                   Some existing \<Rightarrow> existing
                                 | None \<Rightarrow> \<lparr>label_name = n, label_color = ''666666''\<rparr>)
                          newLabels\<rparr>)
                     (snd ms))))"

definition loadComments ::
  "upstream \<Rightarrow> NormalizedIssue \<Rightarrow> ModalState \<Rightarrow> ModalState" where
  "loadComments up issue m =
     (case getIssueComments up (fst (repoParts issue)) (snd (repoParts issue))
             (number issue) of
        Inl e \<Rightarrow> m
      | Inr data \<Rightarrow> m\<lparr>comments := data\<rparr>)"

definition handleAddComment ::
  "upstream \<Rightarrow> ModalState \<times> MainScreen \<Rightarrow> ModalState \<times> MainScreen" where
  "handleAddComment up ms =
     (case selectedIssue (snd ms) of
        None \<Rightarrow> ms
      | Some issue \<Rightarrow>
          if trim (newComment (fst ms)) = [] then ms
          else
            (case addComment up (fst (repoParts issue)) (snd (repoParts issue))
                    (number issue) (trim (newComment (fst ms))) of
               Inl e \<Rightarrow> ((fst ms)\<lparr>actionLoading := None\<rparr>, snd ms)
             | Inr ok \<Rightarrow>
                 (loadComments up issue
                    ((fst ms)\<lparr>newComment := [], showCommentInput := False,
                              actionLoading := None\<rparr>),
                  snd ms)))"

text \<open>The four mutations of the detail view.\<close>

datatype mutation = ToggleState | Assign string | ToggleLabel string | AddComment

fun mutate ::
  "upstream \<Rightarrow> mutation \<Rightarrow> ModalState \<times> MainScreen \<Rightarrow> ModalState \<times> MainScreen" where
  "mutate up ToggleState ms = handleToggleState up ms"
| "mutate up (Assign lg) ms = handleAssign up lg ms"
| "mutate up (ToggleLabel n) ms = handleToggleLabel up n ms"
| "mutate up AddComment ms = handleAddComment up ms"

section \<open>Statements the properties are measured against\<close>

text \<open>
  The release rule in words: a swipe in a direction needs a displacement in that direction
  that is larger than the distance threshold, or larger than 25 together with a velocity
  in the same direction larger than the velocity threshold.
\<close>

definition points :: "direction \<Rightarrow> real \<Rightarrow> bool" where
  "points dir x = (if dir = SwipeLeft then x < 0 else x > 0)"

definition commit_rule :: "direction \<Rightarrow> real \<Rightarrow> real \<Rightarrow> bool" where
  "commit_rule dir dx vx =
     (points dir dx
      \<and> (\<bar>dx\<bar> > 50 \<or> (\<bar>dx\<bar> > 25 \<and> \<bar>vx\<bar> > 25 / 100 \<and> points dir vx)))"

definition target_index :: "direction \<Rightarrow> MainScreen \<Rightarrow> int" where
  "target_index dir s =
     (if dir = SwipeLeft then currentIndexRef s + 1 else currentIndexRef s - 1)"

definition in_list :: "int \<Rightarrow> MainScreen \<Rightarrow> bool" where
  "in_list k s = (0 \<le> k \<and> k < int (length (issuesRef s)))"




text \<open>
  Filters without labels and without a repository: the initial filters are such, and
  neither \<open>handleSourceChange\<close> nor \<open>FilterBar\<close> sets either field.
\<close>

definition ui_filters :: "IssueFilters \<Rightarrow> bool" where
  "ui_filters f = (f_labels f = None \<and> f_repository f = None)"

text \<open>The write request each mutation sends for the issue it is called on.\<close>

fun write_of :: "mutation \<Rightarrow> ModalState \<Rightarrow> NormalizedIssue \<Rightarrow> IssueWrite" where
  "write_of ToggleState m issue =
     PatchState (fst (repoParts issue)) (snd (repoParts issue)) (number issue)
       (if state issue = Open then Closed else Open)"
| "write_of (Assign lg) m issue =
     PatchAssignees (fst (repoParts issue)) (snd (repoParts issue)) (number issue)
       (if lg \<in> set (map login (assignees issue))
        then filter (\<lambda>a. a \<noteq> lg) (map login (assignees issue))
        else map login (assignees issue) @ [lg])"
| "write_of (ToggleLabel n) m issue =
     PutLabels (fst (repoParts issue)) (snd (repoParts issue)) (number issue)
       (if n \<in> set (map label_name (labels issue))
        then filter (\<lambda>l. l \<noteq> n) (map label_name (labels issue))
        else map label_name (labels issue) @ [n])"
| "write_of AddComment m issue =
     PostComment (fst (repoParts issue)) (snd (repoParts issue)) (number issue)
       (trim (newComment m))"

subsection \<open>Example data\<close>

definition issue_a :: NormalizedIssue where
  "issue_a =
     \<lparr>issueId = 7, nodeId = None, title = ''Crash on start'', body = [],
      repo = ''octo/app'', org = ''octo'', url = [], state = Open, labels = [],
      assignees = [], createdAt = [], updatedAt = [], commentCount = 0, number = 1,
      user = me, project = None\<rparr>"

definition issue_b :: NormalizedIssue where
  "issue_b = issue_a\<lparr>issueId := 8, title := ''Typo in readme'', number := 2\<rparr>"

definition issue_c :: NormalizedIssue where
  "issue_c = issue_a\<lparr>issueId := 9, title := ''Slow list'', number := 3\<rparr>"

definition deck_of :: "NormalizedIssue list \<Rightarrow> MainScreen" where
  "deck_of xs =
     (initialScreen 400)\<lparr>issues := xs, issuesRef := xs, loading := False\<rparr>"

definition closed_modal :: ModalState where
  "closed_modal =
     \<lparr>actionLoading = None, comments = [], newComment = ''looks fixed'',
      showCommentInput = False\<rparr>"

text \<open>An upstream that answers every write with status 422.\<close>

definition rejecting_upstream :: upstream where
  "rejecting_upstream =
     \<lparr>accessToken = Some ''token'', user_endpoint = Http 200 [] me,
      search_endpoint = offset_feed [],
      graphql_endpoint = (\<lambda>rq. Unreachable),
      write_endpoint = (\<lambda>w. Http 422 ''Validation Failed'' ()),
      comments_endpoint = (\<lambda>owner rp n. Unreachable)\<rparr>"


definition call_fails :: "upstream \<Rightarrow> IssueWrite \<Rightarrow> bool" where
  "call_fails up w =
     (case apiRequest (accessToken up) (write_endpoint up w) of
        Inl e \<Rightarrow> True | Inr ok \<Rightarrow> False)"

text \<open>
  What holds of the lock and the timeouts between two handlers: the lock is held exactly
  when a timeout handle is stored, the armed timeouts are the stored one, no handle
  exceeds the counter, and the refs agree with the state they copy.
\<close>

definition lock_inv :: "MainScreen \<Rightarrow> bool" where
  "lock_inv s =
     (isAnimatingRef s = (safetyTimerRef s \<noteq> None)
      \<and> map fst (timers s) = (case safetyTimerRef s of None \<Rightarrow> [] | Some h \<Rightarrow> [h])
      \<and> list_all (\<lambda>t. fst t \<le> timerCount s) (timers s))"

definition synced :: "MainScreen \<Rightarrow> bool" where
  "synced s = (currentIndexRef s = currentIndex s \<and> issuesRef s = issues s)"

definition in_bounds :: "MainScreen \<Rightarrow> bool" where
  "in_bounds s =
     (issues s = [] \<or> (0 \<le> currentIndex s \<and> currentIndex s < int (length (issues s))))"


definition page_of :: "NormalizedIssue list \<Rightarrow> PaginatedResponse" where
  "page_of xs =
     \<lparr>items = xs, totalCount = int (length xs), hasNextPage = False, endCursor = None\<rparr>"

definition closed_filters :: IssueFilters where
  "closed_filters = (filters (initialScreen 400))\<lparr>f_state := Closed\<rparr>"

text \<open>The screen with its first page of two issues.\<close>

definition two_cards :: MainScreen where
  "two_cards = run [FetchSettled 1 True (Inr (page_of [issue_a, issue_c]))] (mounted 400)"

text \<open>The same screen, reached as a run of the app.\<close>

definition first_page_deck :: MainScreen where
  "first_page_deck =
     app_run [Occurs (FetchSettled 1 True (Inr (page_of [issue_a, issue_c])))] (mounted 400)"

text \<open>The same deck while a swipe to the left is settling.\<close>

definition swiping_cards :: MainScreen where
  "swiping_cards =
     run [FetchSettled 1 True (Inr (page_of [issue_a, issue_c])), Grant (-20) 0,
          Release (-60) 0] (mounted 400)"

text \<open>
  A swipe to the left on that deck is committed; before it completes the state filter is
  switched and the first page of the new feed arrives with one issue; then the safety
  timeout of the swipe fires.
\<close>

definition swipe_then_refilter :: "event list" where
  "swipe_then_refilter =
     [FetchSettled 1 True (Inr (page_of [issue_a, issue_c])),
      Grant (-20) 0,
      Release (-60) 0,
      FiltersChange closed_filters,
      FetchSettled 1 True (Inr (page_of [issue_b])),
      SafetyTimeout 1]"

text \<open>
  A feed of 21 matching issues, and the same feed after one more issue has entered at its
  head between two page requests.
\<close>

definition feed21 :: "RawSearchIssue list" where
  "feed21 = map raw_issue [1..<22]"

definition feed21_shifted :: "RawSearchIssue list" where
  "feed21_shifted = raw_issue 100 # feed21"

definition overlapping_load :: MainScreen where
  "overlapping_load =
     load_more [feed_upstream feed21_shifted]
       (fetchIssues (feed_upstream feed21) 1 True (mounted 400))"

text \<open>
  The indices that completions still to come will write: those captured by the armed
  timeouts and by the completion callbacks not yet invoked. The deck is in order when
  \<open>currentIndex\<close> is an index of the list (0 for the empty list) and so is every such
  pending index. An event replaces the list when it changes the filters or completes a
  reset fetch; a run is calm when each such event finds no completion pending.
\<close>

definition pending_targets :: "MainScreen \<Rightarrow> int list" where
  "pending_targets s = map snd (timers s) @ settling s"

definition deck_ok :: "MainScreen \<Rightarrow> bool" where
  "deck_ok s =
     ((if issues s = [] then currentIndex s = 0
       else 0 \<le> currentIndex s \<and> currentIndex s < int (length (issues s)))
      \<and> list_all (\<lambda>k. 0 \<le> k \<and> k < int (length (issues s))) (pending_targets s))"

fun replaces_list :: "event \<Rightarrow> bool" where
  "replaces_list (SourceChange source) = True"
| "replaces_list (FiltersChange f) = True"
| "replaces_list (FetchSettled pageNum isReset outcome) = isReset"
| "replaces_list e = False"

fun calm :: "event list \<Rightarrow> MainScreen \<Rightarrow> bool" where
  "calm [] s = True"
| "calm (e # es) s = ((replaces_list e \<longrightarrow> pending_targets s = []) \<and> calm es (step e s))"

section \<open>Properties of the search strategy\<close>

lemma search_page_full:
  "hasNextPage (search_page data perPage)
     \<longleftrightarrow> int (length (items (search_page data perPage))) = perPage"
  by (simp add: search_page_def)

lemma fetchAllIssues_page:
  "fetchAllIssues up pg perPage st srt dir rp ls sq = Inr r
     \<Longrightarrow> \<exists>data. r = search_page data perPage"
  by (auto simp: fetchAllIssues_def Let_def split: sum.splits)

lemma fetchOrgIssues_page:
  "fetchOrgIssues up og pg perPage st srt dir rp asg ls sq = Inr r
     \<Longrightarrow> \<exists>data. r = search_page data perPage"
  by (auto simp: fetchOrgIssues_def Let_def split: sum.splits)

lemma feed_fetchAll:
  "fetchAllIssues (feed_upstream feed) pg perPage st srt dir rp ls sq =
     Inr (search_page
            \<lparr>sd_items = Some (take (nat perPage) (drop (nat ((pg - 1) * perPage)) feed)),
             sd_total_count = Some (int (length feed))\<rparr> perPage)"
  by (simp add: fetchAllIssues_def feed_upstream_def getCurrentUser_def apiRequest_def
        getAccessToken_def offset_feed_def response_ok_def Let_def)

lemma feed_fetchOrg:
  "fetchOrgIssues (feed_upstream feed) og pg perPage st srt dir rp None ls sq =
     Inr (search_page
            \<lparr>sd_items = Some (take (nat perPage) (drop (nat ((pg - 1) * perPage)) feed)),
             sd_total_count = Some (int (length feed))\<rparr> perPage)"
  by (simp add: fetchOrgIssues_def assignee_term_def truthy_def feed_upstream_def
        apiRequest_def getAccessToken_def offset_feed_def response_ok_def Let_def)

text \<open>
  C1. Whenever \<open>fetchAllIssues\<close> or \<open>fetchOrgIssues\<close> returns a page for page size
  \<open>perPage\<close>, its \<open>hasNextPage\<close> flag is true exactly when the number of returned items
  equals \<open>perPage\<close>. Against an offset-paged feed of 25 matching issues with page size 20,
  the first page holds the first 20 issues with the flag set and the second page holds the
  remaining 5 with the flag cleared.
\<close>

theorem search_hasNextPage_iff_full_page:
  "(fetchAllIssues up pg perPage st srt dir rp ls sq = Inr r \<longrightarrow>
      (hasNextPage r \<longleftrightarrow> int (length (items r)) = perPage))
   \<and> (fetchOrgIssues up og pg perPage st srt dir rp asg ls sq = Inr r' \<longrightarrow>
      (hasNextPage r' \<longleftrightarrow> int (length (items r')) = perPage))
   \<and> (length feed = 25 \<longrightarrow>
       (\<exists>p1 p2.
          fetchAllIssues (feed_upstream feed) 1 20 Open srt dir None None None = Inr p1
          \<and> items p1 = map normalizeSearchIssue (take 20 feed)
          \<and> length (items p1) = 20 \<and> hasNextPage p1
          \<and> fetchAllIssues (feed_upstream feed) 2 20 Open srt dir None None None = Inr p2
          \<and> items p2 = map normalizeSearchIssue (drop 20 feed)
          \<and> length (items p2) = 5 \<and> \<not> hasNextPage p2))"
proof (intro conjI impI)
  assume "fetchAllIssues up pg perPage st srt dir rp ls sq = Inr r"
  then obtain d where "r = search_page d perPage"
    using fetchAllIssues_page by blast
  then show "hasNextPage r \<longleftrightarrow> int (length (items r)) = perPage"
    by (simp add: search_page_full)
next
  assume "fetchOrgIssues up og pg perPage st srt dir rp asg ls sq = Inr r'"
  then obtain d where "r' = search_page d perPage"
    using fetchOrgIssues_page by blast
  then show "hasNextPage r' \<longleftrightarrow> int (length (items r')) = perPage"
    by (simp add: search_page_full)
next
  assume len: "length feed = 25"
  show "\<exists>p1 p2.
          fetchAllIssues (feed_upstream feed) 1 20 Open srt dir None None None = Inr p1
          \<and> items p1 = map normalizeSearchIssue (take 20 feed)
          \<and> length (items p1) = 20 \<and> hasNextPage p1
          \<and> fetchAllIssues (feed_upstream feed) 2 20 Open srt dir None None None = Inr p2
          \<and> items p2 = map normalizeSearchIssue (drop 20 feed)
          \<and> length (items p2) = 5 \<and> \<not> hasNextPage p2"
    using len by (simp add: feed_fetchAll search_page_def or_nil_def)
qed

theorem search_hasNextPage_iff_full_page_witness:
  "length feed25 = 25
   \<and> (case fetchAllIssues (feed_upstream feed25) 1 20 Open ''updated'' ''desc''
             None None None of
        Inl e \<Rightarrow> False | Inr p \<Rightarrow> hasNextPage p \<and> length (items p) = 20)
   \<and> (case fetchAllIssues (feed_upstream feed25) 2 20 Open ''updated'' ''desc''
             None None None of
        Inl e \<Rightarrow> False | Inr p \<Rightarrow> \<not> hasNextPage p \<and> length (items p) = 5)
   \<and> (case fetchOrgIssues (feed_upstream feed25) ''octo'' 2 20 Open ''updated'' ''desc''
             None None None None of
        Inl e \<Rightarrow> False | Inr p \<Rightarrow> \<not> hasNextPage p \<and> length (items p) = 5)"
proof -
  have h: "length feed25 = 25"
    by (simp add: feed25_def)
  have l5: "length (drop 20 feed25) = 5"
    by (simp add: feed25_def)
  show ?thesis
    using h l5
      search_hasNextPage_iff_full_page
        [where feed = feed25 and srt = "''updated''" and dir = "''desc''"
           and up = "feed_upstream feed25" and pg = 2 and perPage = 20 and st = Open
           and rp = None and ls = None and sq = None and og = "''octo''" and asg = None
           and r = "search_page \<lparr>sd_items = Some (drop 20 feed25),
                                  sd_total_count = Some 25\<rparr> 20"
           and r' = "search_page \<lparr>sd_items = Some (drop 20 feed25),
                                   sd_total_count = Some 25\<rparr> 20"]
    by (auto simp: feed_fetchAll feed_fetchOrg search_page_def or_nil_def)
qed

section \<open>Properties of the structured strategy\<close>

lemma kept_unfold:
  "kept sf af rf node \<longleftrightarrow>
     (case n_content node of None \<Rightarrow> False
      | Some content \<Rightarrow>
         \<not> (c_number content = None \<or> c_number content = Some 0)
         \<and> \<not> (truthy sf \<and> sf \<noteq> Some ''all''
                    \<and> toLowerCase (fst (node_status node)) \<noteq> toLowerCase (the sf))
         \<and> \<not> (truthy rf
                    \<and> (case c_repository content of None \<Rightarrow> None | Some r \<Rightarrow> nameWithOwner r)
                        \<noteq> rf)
         \<and> \<not> (truthy af
                    \<and> ((af = Some ''unassigned''
                           \<and> length (assignee_logins content) > 0)
                        \<or> (af \<noteq> Some ''all''
                           \<and> af \<noteq> Some ''unassigned''
                           \<and> the af \<notin> set (assignee_logins content)))))"
proof (cases "n_content node")
  case None
  then show ?thesis by (simp add: kept_def has_issue_number_def)
next
  case (Some content)
  have n: "has_issue_number node
             \<longleftrightarrow> \<not> (c_number content = None \<or> c_number content = Some 0)"
    using Some by (auto simp: has_issue_number_def split: option.splits)
  have s: "passes_status sf node \<longleftrightarrow> \<not> (truthy sf \<and> sf \<noteq> Some ''all''
                    \<and> toLowerCase (fst (node_status node)) \<noteq> toLowerCase (the sf))"
    by (cases sf) (auto simp: passes_status_def truthy_def)
  have r: "passes_repo rf node \<longleftrightarrow> \<not> (truthy rf
                    \<and> (case c_repository content of None \<Rightarrow> None | Some r \<Rightarrow> nameWithOwner r)
                        \<noteq> rf)"
    using Some
    by (cases rf; cases "c_repository content") (auto simp: passes_repo_def truthy_def)
  have a: "passes_assignee af node \<longleftrightarrow> \<not> (truthy af
                    \<and> ((af = Some ''unassigned''
                           \<and> length (assignee_logins content) > 0)
                        \<or> (af \<noteq> Some ''all''
                           \<and> af \<noteq> Some ''unassigned''
                           \<and> the af \<notin> set (assignee_logins content))))"
    using Some by (cases af) (auto simp: passes_assignee_def truthy_def)
  show ?thesis
    unfolding kept_def n s r a using Some by simp
qed

lemma collect_nodes_step:
  "collect_nodes owner pd sf af rf (node # rest) acc
     = collect_nodes owner pd sf af rf rest
         (if kept sf af rf node then acc @ [node_issue owner pd node] else acc)"
proof (cases "n_content node")
  case None
  then show ?thesis by (simp add: kept_unfold)
next
  case (Some content)
  show ?thesis
    unfolding kept_unfold
    using Some
    by (simp add: Let_def node_issue_def node_status_def del: collect_nodes.simps(1)) blast
qed

lemma collect_nodes_filter:
  "collect_nodes owner pd sf af rf nodes acc
     = acc @ map (node_issue owner pd) (filter (kept sf af rf) nodes)"
proof (induction nodes arbitrary: acc)
  case Nil
  then show ?case by simp
next
  case (Cons node rest)
  show ?case
    unfolding collect_nodes_step by (simp add: Cons.IH)
qed

lemma graphql_sent_none:
  "getAccessToken (accessToken up) = Inl e \<Longrightarrow> graphql_sent up rq = []"
  by (simp add: graphql_sent_def)

lemma graphql_sent_one:
  "getAccessToken (accessToken up) = Inr t \<Longrightarrow> graphql_sent up rq = [rq]"
  by (simp add: graphql_sent_def)

lemma graphqlRequest_no_token:
  "getAccessToken (accessToken up) = Inl e \<Longrightarrow> graphqlRequest up rq = Inl e"
  by (simp add: graphqlRequest_def)

lemma fetchProject_sent:
  "fst (fetchProjectIssues up owner num cursor perPage sf af rf)
     = (case getAccessToken (accessToken up) of
          Inl e \<Rightarrow> []
        | Inr t \<Rightarrow>
            (case graphqlRequest up (project_vars OrganizationOwner owner num cursor perPage) of
               Inl e \<Rightarrow> [project_vars OrganizationOwner owner num cursor perPage,
                         project_vars UserOwner owner num cursor perPage]
             | Inr first \<Rightarrow>
                 if g_organization first = None \<and> g_errors first = None
                 then [project_vars OrganizationOwner owner num cursor perPage,
                       project_vars UserOwner owner num cursor perPage]
                 else [project_vars OrganizationOwner owner num cursor perPage]))"
proof (cases "getAccessToken (accessToken up)")
  case (Inl e)
  then show ?thesis
    by (simp add: fetchProjectIssues_def Let_def graphql_sent_none graphqlRequest_no_token)
next
  case (Inr t)
  then show ?thesis
    by (simp add: fetchProjectIssues_def Let_def graphql_sent_one project_vars_def
          split: sum.splits)
qed

lemma fetchProject_result:
  "fetchProjectIssues up owner num cursor perPage sf af rf = (sent, Inr pg)
   \<Longrightarrow> \<exists>result. graphqlRequest up (last sent) = Inr result
                \<and> pg = project_page owner sf af rf result"
proof (cases "getAccessToken (accessToken up)")
  case (Inl e)
  assume "fetchProjectIssues up owner num cursor perPage sf af rf = (sent, Inr pg)"
  then show ?thesis
    using Inl by (simp add: fetchProjectIssues_def Let_def graphqlRequest_no_token)
next
  case (Inr t)
  assume "fetchProjectIssues up owner num cursor perPage sf af rf = (sent, Inr pg)"
  then show ?thesis
    using Inr
    by (auto simp: fetchProjectIssues_def Let_def graphql_sent_one
          split: sum.splits if_splits)
qed

lemma project_page_resolved:
  "g_errors result = None \<Longrightarrow> resolved_project result = Some pd \<Longrightarrow>
   items (project_page owner sf af rf result)
     = map (node_issue owner pd) (filter (kept sf af rf) (or_nil (it_nodes (p_items pd))))
   \<and> totalCount (project_page owner sf af rf result) = or_zero (it_totalCount (p_items pd))"
  by (simp add: project_page_def resolved_project_def Let_def collect_nodes_filter)

lemma filter_count:
  "length (filter P xs) + length (filter (\<lambda>x. \<not> P x) xs) = length xs"
  by (induction xs) auto

lemma demo_kept:
  "filter (kept (Some ''in progress'') None None) (map demo_node [0..<10])
     = map demo_node [0..<7]"
  by code_simp

lemma demo_fetch:
  "fetchProjectIssues demo_upstream ''octo'' 1 None 50 (Some ''in progress'') None None
     = ([project_vars OrganizationOwner ''octo'' 1 None 50],
        Inr (project_page ''octo'' (Some ''in progress'') None None demo_result))"
  by (simp add: fetchProjectIssues_def graphqlRequest_def graphql_sent_def demo_upstream_def
        getAccessToken_def response_ok_def demo_result_def project_vars_def truthy_def)

lemma demo_graphql: "graphqlRequest demo_upstream rq = Inr demo_result"
  by (simp add: graphqlRequest_def demo_upstream_def getAccessToken_def response_ok_def)

lemma demo_nodes: "or_nil (it_nodes (p_items demo_project)) = map demo_node [0..<10]"
  by (simp add: demo_project_def or_nil_def)

text \<open>
  C4. When \<open>fetchProjectIssues\<close> returns a page built from a project the last request
  resolved, the returned items are exactly the issues of the page's nodes that carry an
  issue number and pass the status, assignee and repository predicates, in page order;
  every other node is left out, so the items and the excluded nodes together count the
  page's nodes. The returned \<open>totalCount\<close> is the total the upstream reported for the
  project's items, whatever was excluded.
\<close>

theorem structured_page_filters_client_side:
  assumes "fetchProjectIssues up owner num cursor perPage sf af rf = (sent, Inr pg)"
  shows "\<exists>result. graphqlRequest up (last sent) = Inr result
          \<and> (\<forall>pd. g_errors result = None \<and> resolved_project result = Some pd \<longrightarrow>
                items pg = map (node_issue owner pd)
                               (filter (kept sf af rf) (or_nil (it_nodes (p_items pd))))
                \<and> length (items pg)
                    + length (filter (\<lambda>n. \<not> kept sf af rf n)
                                (or_nil (it_nodes (p_items pd))))
                    = length (or_nil (it_nodes (p_items pd)))
                \<and> totalCount pg = or_zero (it_totalCount (p_items pd)))"
proof -
  obtain result where r: "graphqlRequest up (last sent) = Inr result"
      and p: "pg = project_page owner sf af rf result"
    using fetchProject_result [OF assms] by blast
  show ?thesis
  proof (intro exI conjI allI impI)
    show "graphqlRequest up (last sent) = Inr result" by (rule r)
  next
    fix pd assume h: "g_errors result = None \<and> resolved_project result = Some pd"
    then show "items pg = map (node_issue owner pd)
                               (filter (kept sf af rf) (or_nil (it_nodes (p_items pd))))"
      using project_page_resolved [of result pd owner sf af rf] p by simp
    then show "length (items pg)
                    + length (filter (\<lambda>n. \<not> kept sf af rf n)
                                (or_nil (it_nodes (p_items pd))))
                    = length (or_nil (it_nodes (p_items pd)))"
      by (simp add: filter_count)
    show "totalCount pg = or_zero (it_totalCount (p_items pd))"
      using project_page_resolved [of result pd owner sf af rf] p h by simp
  qed
qed

theorem structured_page_filters_client_side_witness:
  "fetchProjectIssues demo_upstream ''octo'' 1 None 50 (Some ''in progress'') None None
     = ([project_vars OrganizationOwner ''octo'' 1 None 50],
        Inr (project_page ''octo'' (Some ''in progress'') None None demo_result))
   \<and> length (or_nil (it_nodes (p_items demo_project))) = 10
   \<and> length (filter (\<lambda>n. \<not> passes_status (Some ''in progress'') n)
               (or_nil (it_nodes (p_items demo_project)))) = 3
   \<and> length (items (project_page ''octo'' (Some ''in progress'') None None demo_result)) = 7
   \<and> totalCount (project_page ''octo'' (Some ''in progress'') None None demo_result) = 42"
proof -
  have f: "fetchProjectIssues demo_upstream ''octo'' 1 None 50 (Some ''in progress'') None None
     = ([project_vars OrganizationOwner ''octo'' 1 None 50],
        Inr (project_page ''octo'' (Some ''in progress'') None None demo_result))"
    by (rule demo_fetch)
  have e: "g_errors demo_result = None \<and> resolved_project demo_result = Some demo_project"
    by (simp add: demo_result_def resolved_project_def)
  have st: "length (filter (\<lambda>n. \<not> passes_status (Some ''in progress'') n)
               (map demo_node [0..<10])) = 3"
    by code_simp
  have tc: "or_zero (it_totalCount (p_items demo_project)) = 42"
    by (simp add: demo_project_def or_zero_def)
  from structured_page_filters_client_side [OF f] e demo_graphql
  have "items (project_page ''octo'' (Some ''in progress'') None None demo_result)
          = map (node_issue ''octo'' demo_project)
              (filter (kept (Some ''in progress'') None None)
                 (or_nil (it_nodes (p_items demo_project))))
        \<and> totalCount (project_page ''octo'' (Some ''in progress'') None None demo_result)
            = or_zero (it_totalCount (p_items demo_project))"
    by auto
  then show ?thesis
    using f st tc by (simp add: demo_nodes demo_kept)
qed

lemma user_owned_org_reply:
  "graphqlRequest user_owned_upstream (project_vars OrganizationOwner ''octo'' 1 None 50)
     = Inr \<lparr>g_errors = None, g_organization = None, g_user = None\<rparr>"
  by (simp add: graphqlRequest_def user_owned_upstream_def getAccessToken_def
        response_ok_def project_vars_def)

lemma user_owned_user_reply:
  "graphqlRequest user_owned_upstream (project_vars UserOwner ''octo'' 1 None 50)
     = Inr \<lparr>g_errors = None, g_organization = None, g_user = Some demo_project\<rparr>"
  by (simp add: graphqlRequest_def user_owned_upstream_def getAccessToken_def
        response_ok_def project_vars_def)

text \<open>
  The fallback of \<open>fetchProjectIssues\<close>. When the organization query returns neither a
  project nor errors, the function sends exactly one more request, the user query with the
  same owner login, project number, page size and cursor, and its result is decided by that
  reply alone. In every execution the requests sent are none (no token), the organization
  query, or the organization query followed by that one user query: nothing is sent a
  second time. With a token, the user query follows exactly when the organization request
  threw or returned neither a project nor errors.
\<close>

lemma fallback_requests:
  "(graphqlRequest up (project_vars OrganizationOwner owner num cursor perPage) = Inr result
      \<and> g_organization result = None \<and> g_errors result = None \<longrightarrow>
      fetchProjectIssues up owner num cursor perPage sf af rf
        = ([project_vars OrganizationOwner owner num cursor perPage,
            project_vars UserOwner owner num cursor perPage],
           (case graphqlRequest up (project_vars UserOwner owner num cursor perPage) of
              Inl e \<Rightarrow> Inl e
            | Inr result' \<Rightarrow> Inr (project_page owner sf af rf result'))))
   \<and> fst (fetchProjectIssues up owner num cursor perPage sf af rf)
       = (case getAccessToken (accessToken up) of
            Inl e \<Rightarrow> []
          | Inr t \<Rightarrow>
              (case graphqlRequest up
                      (project_vars OrganizationOwner owner num cursor perPage) of
                 Inl e \<Rightarrow> [project_vars OrganizationOwner owner num cursor perPage,
                           project_vars UserOwner owner num cursor perPage]
               | Inr first \<Rightarrow>
                   if g_organization first = None \<and> g_errors first = None
                   then [project_vars OrganizationOwner owner num cursor perPage,
                         project_vars UserOwner owner num cursor perPage]
                   else [project_vars OrganizationOwner owner num cursor perPage]))"
proof (intro conjI impI)
  assume a: "graphqlRequest up (project_vars OrganizationOwner owner num cursor perPage)
            = Inr result
      \<and> g_organization result = None \<and> g_errors result = None"
  then obtain t where t: "getAccessToken (accessToken up) = Inr t"
    by (cases "getAccessToken (accessToken up)") (simp_all add: graphqlRequest_no_token)
  show "fetchProjectIssues up owner num cursor perPage sf af rf
        = ([project_vars OrganizationOwner owner num cursor perPage,
            project_vars UserOwner owner num cursor perPage],
           (case graphqlRequest up (project_vars UserOwner owner num cursor perPage) of
              Inl e \<Rightarrow> Inl e
            | Inr result' \<Rightarrow> Inr (project_page owner sf af rf result')))"
    using a by (simp add: fetchProjectIssues_def project_vars_def Let_def graphql_sent_one [OF t])
next
  show "fst (fetchProjectIssues up owner num cursor perPage sf af rf)
       = (case getAccessToken (accessToken up) of
            Inl e \<Rightarrow> []
          | Inr t \<Rightarrow>
              (case graphqlRequest up
                      (project_vars OrganizationOwner owner num cursor perPage) of
                 Inl e \<Rightarrow> [project_vars OrganizationOwner owner num cursor perPage,
                           project_vars UserOwner owner num cursor perPage]
               | Inr first \<Rightarrow>
                   if g_organization first = None \<and> g_errors first = None
                   then [project_vars OrganizationOwner owner num cursor perPage,
                         project_vars UserOwner owner num cursor perPage]
                   else [project_vars OrganizationOwner owner num cursor perPage]))"
    by (rule fetchProject_sent)
qed

lemma fallback_user_owned:
  "graphqlRequest user_owned_upstream (project_vars OrganizationOwner ''octo'' 1 None 50)
     = Inr \<lparr>g_errors = None, g_organization = None, g_user = None\<rparr>
   \<and> fst (fetchProjectIssues user_owned_upstream ''octo'' 1 None 50 None None None)
       = [\<lparr>gq_kind = OrganizationOwner, gq_owner = ''octo'', gq_number = 1, gq_first = 50,
           gq_after = None\<rparr>,
          \<lparr>gq_kind = UserOwner, gq_owner = ''octo'', gq_number = 1, gq_first = 50,
           gq_after = None\<rparr>]
   \<and> (case snd (fetchProjectIssues user_owned_upstream ''octo'' 1 None 50 None None None) of
        Inl e \<Rightarrow> False | Inr pg \<Rightarrow> totalCount pg = 42)"
  using user_owned_org_reply user_owned_user_reply
    fallback_requests [of user_owned_upstream "''octo''" 1 None 50
           "\<lparr>g_errors = None, g_organization = None, g_user = None\<rparr>" None None None]
  by (simp add: project_vars_def truthy_def project_page_def demo_project_def or_zero_def
        Let_def)

text \<open>
  C10. The claim is that \<open>fetchProjectIssues\<close> retries once, as a user-owned project, when
  the organization query returns no project and no error, and retries in no other case.
  The first half holds (lemma \<open>fallback_requests\<close>). The second half fails when the
  organization request itself fails: \<open>graphqlRequest\<close> throws on the status 502, the \<open>catch\<close>
  block written for the exception \<open>Not found as organization\<close> receives this exception too,
  and the user query is sent. Here the user query finds no project, so the function
  returns the empty page and the failure of the first request is lost.
\<close>

theorem failed_org_request_is_retried_as_user:
  "graphqlRequest org_failing_upstream (project_vars OrganizationOwner ''octo'' 1 None 50)
     = Inl (GraphQLFailed 502)
   \<and> fetchProjectIssues org_failing_upstream ''octo'' 1 None 50 None None None
       = ([project_vars OrganizationOwner ''octo'' 1 None 50,
           project_vars UserOwner ''octo'' 1 None 50],
          Inr empty_page)"
  by (simp add: fetchProjectIssues_def graphqlRequest_def graphql_sent_def
        org_failing_upstream_def getAccessToken_def response_ok_def project_vars_def
        truthy_def project_page_def Let_def)

section \<open>Properties of the swipe controller\<close>

lemma release_rule_left: "swipedLeft dx vx \<longleftrightarrow> commit_rule SwipeLeft dx vx"
  by (auto simp: swipedLeft_def commit_rule_def points_def SWIPE_THRESHOLD_def
        SWIPE_VELOCITY_THRESHOLD_def)

lemma release_rule_right: "swipedRight dx vx \<longleftrightarrow> commit_rule SwipeRight dx vx"
  by (auto simp: swipedRight_def commit_rule_def points_def SWIPE_THRESHOLD_def
        SWIPE_VELOCITY_THRESHOLD_def)

lemma rule_exclusive: "\<not> (commit_rule SwipeLeft dx vx \<and> commit_rule SwipeRight dx vx)"
  by (auto simp: commit_rule_def points_def)

lemma forceSwipe_index:
  "currentIndex (forceSwipe d s) = currentIndex s"
  by (simp add: forceSwipe_def Let_def)

lemma forceSwipe_lock:
  "\<not> isAnimatingRef s \<Longrightarrow> isAnimatingRef (forceSwipe d s) \<longleftrightarrow> in_list (target_index d s) s"
  by (auto simp: forceSwipe_def Let_def in_list_def target_index_def)

text \<open>
  C6. A release is resolved as a swipe to the left exactly when the rule holds for the left,
  as a swipe to the right exactly when it holds for the right, and the two exclude each
  other; in every other case the card springs back to the centre and nothing else changes.
  The release never changes \<open>currentIndex\<close>. With the lock free, the release takes the lock
  for a settle toward the off-screen position exactly when the rule holds for a direction
  whose target index is in the list.
\<close>

theorem release_commits_by_rule:
  "onPanResponderRelease dx vx s =
     (if commit_rule SwipeLeft dx vx then forceSwipe SwipeLeft s
      else if commit_rule SwipeRight dx vx then forceSwipe SwipeRight s
      else s\<lparr>spring := Some \<lparr>toValue = 0, friction = 7, tension = 80\<rparr>\<rparr>)
   \<and> \<not> (commit_rule SwipeLeft dx vx \<and> commit_rule SwipeRight dx vx)
   \<and> currentIndex (onPanResponderRelease dx vx s) = currentIndex s
   \<and> (\<not> isAnimatingRef s \<longrightarrow>
        (isAnimatingRef (onPanResponderRelease dx vx s)
           \<longleftrightarrow> (\<exists>d. commit_rule d dx vx \<and> in_list (target_index d s) s)))"
proof (intro conjI impI)
  show eq: "onPanResponderRelease dx vx s =
     (if commit_rule SwipeLeft dx vx then forceSwipe SwipeLeft s
      else if commit_rule SwipeRight dx vx then forceSwipe SwipeRight s
      else s\<lparr>spring := Some \<lparr>toValue = 0, friction = 7, tension = 80\<rparr>\<rparr>)"
    by (simp add: onPanResponderRelease_def release_rule_left release_rule_right)
  show "\<not> (commit_rule SwipeLeft dx vx \<and> commit_rule SwipeRight dx vx)"
    by (rule rule_exclusive)
  show "currentIndex (onPanResponderRelease dx vx s) = currentIndex s"
    unfolding eq by (simp add: forceSwipe_index)
  assume free: "\<not> isAnimatingRef s"
  show "isAnimatingRef (onPanResponderRelease dx vx s)
           \<longleftrightarrow> (\<exists>d. commit_rule d dx vx \<and> in_list (target_index d s) s)"
  proof (cases "commit_rule SwipeLeft dx vx")
    case True
    then have "\<not> commit_rule SwipeRight dx vx" using rule_exclusive by blast
    then have "(\<exists>d. commit_rule d dx vx \<and> in_list (target_index d s) s)
                 \<longleftrightarrow> in_list (target_index SwipeLeft s) s"
      using True by (metis direction.exhaust)
    then show ?thesis unfolding eq using True free by (simp add: forceSwipe_lock)
  next
    case False
    show ?thesis
    proof (cases "commit_rule SwipeRight dx vx")
      case True
      then have "(\<exists>d. commit_rule d dx vx \<and> in_list (target_index d s) s)
                 \<longleftrightarrow> in_list (target_index SwipeRight s) s"
        using False by (metis direction.exhaust)
      then show ?thesis unfolding eq using True False free by (simp add: forceSwipe_lock)
    next
      case r: False
      then have "\<not> (\<exists>d. commit_rule d dx vx \<and> in_list (target_index d s) s)"
        using False by (metis direction.exhaust)
      then show ?thesis unfolding eq using r False free by simp
    qed
  qed
qed

theorem release_commits_by_rule_witness:
  "commit_rule SwipeLeft (-60) 0 \<and> commit_rule SwipeLeft (-30) (-3/10)
   \<and> \<not> commit_rule SwipeLeft (-30) (-1/10) \<and> \<not> commit_rule SwipeRight (-30) (-1/10)
   \<and> \<not> commit_rule SwipeLeft (-30) (3/10) \<and> \<not> commit_rule SwipeRight (-30) (3/10)
   \<and> \<not> isAnimatingRef (deck_of [issue_a, issue_c])
   \<and> isAnimatingRef (onPanResponderRelease (-60) 0 (deck_of [issue_a, issue_c]))
   \<and> isAnimatingRef (onPanResponderRelease (-30) (-3/10) (deck_of [issue_a, issue_c]))
   \<and> onPanResponderRelease (-30) (-1/10) (deck_of [issue_a, issue_c])
       = (deck_of [issue_a, issue_c])\<lparr>spring := Some \<lparr>toValue = 0, friction = 7, tension = 80\<rparr>\<rparr>
   \<and> onPanResponderRelease (-30) (3/10) (deck_of [issue_a, issue_c])
       = (deck_of [issue_a, issue_c])\<lparr>spring := Some \<lparr>toValue = 0, friction = 7, tension = 80\<rparr>\<rparr>"
proof -
  have r1: "commit_rule SwipeLeft (-60) 0" "commit_rule SwipeLeft (-30) (-3/10)"
    by (simp_all add: commit_rule_def points_def)
  have r2: "\<not> commit_rule SwipeLeft (-30) (-1/10)" "\<not> commit_rule SwipeRight (-30) (-1/10)"
     "\<not> commit_rule SwipeLeft (-30) (3/10)" "\<not> commit_rule SwipeRight (-30) (3/10)"
    by (simp_all add: commit_rule_def points_def)
  have free: "\<not> isAnimatingRef (deck_of [issue_a, issue_c])"
    by (simp add: deck_of_def initialScreen_def)
  have tgt: "in_list (target_index SwipeLeft (deck_of [issue_a, issue_c])) (deck_of [issue_a, issue_c])"
    by (simp add: deck_of_def initialScreen_def in_list_def target_index_def)
  show ?thesis
    using r1 r2 free tgt
      release_commits_by_rule [of "-60" 0 "deck_of [issue_a, issue_c]"]
      release_commits_by_rule [of "-30" "-3/10" "deck_of [issue_a, issue_c]"]
      release_commits_by_rule [of "-30" "-1/10" "deck_of [issue_a, issue_c]"]
      release_commits_by_rule [of "-30" "3/10" "deck_of [issue_a, issue_c]"]
    by auto
qed


section \<open>Properties of the mutation protocol\<close>







lemma comment_keeps: "snd (handleAddComment up (m, s)) = s"
  by (simp add: handleAddComment_def Let_def split: sum.splits option.splits)




lemma non_success_fails:
  "write_endpoint up w = Http st txt j \<Longrightarrow> \<not> response_ok st \<Longrightarrow> call_fails up w"
  by (simp add: call_fails_def apiRequest_def getAccessToken_def
        split: option.splits sum.splits)

lemma failed_toggle: "selectedIssue s = Some issue \<Longrightarrow> call_fails up (write_of ToggleState m issue) \<Longrightarrow> snd (handleToggleState up (m, s)) = s"
  by (cases "state issue = Open")
     (simp_all add: handleToggleState_def updateIssueState_def call_fails_def Let_def
        split: sum.splits)

lemma failed_assign: "selectedIssue s = Some issue \<Longrightarrow> call_fails up (write_of (Assign lg) m issue) \<Longrightarrow> snd (handleAssign up lg (m, s)) = s"
  by (cases "lg \<in> set (map login (assignees issue))")
     (simp_all add: handleAssign_def assignIssue_def call_fails_def Let_def
        split: sum.splits)

lemma failed_label: "selectedIssue s = Some issue \<Longrightarrow> call_fails up (write_of (ToggleLabel n) m issue) \<Longrightarrow> snd (handleToggleLabel up n (m, s)) = s"
  by (cases "n \<in> set (map label_name (labels issue))")
     (simp_all add: handleToggleLabel_def updateLabels_def call_fails_def Let_def
        split: sum.splits)

text \<open>
  C8. When the write request of a mutation (state toggle, assignee toggle, label toggle,
  comment) fails, in particular when it is answered with a non-success status, the screen's
  state after the handler is the state before it: no issue of the deck and no field of the
  selected issue has changed. A failed toggle of an open issue leaves it open.
\<close>

theorem failed_mutation_leaves_deck:
  assumes "selectedIssue s = Some issue"
      and "call_fails up (write_of mu m issue)
           \<or> (\<exists>st txt. write_endpoint up (write_of mu m issue) = Http st txt () \<and> \<not> response_ok st)"
  shows "snd (mutate up mu (m, s)) = s"
proof -
  have f: "call_fails up (write_of mu m issue)"
    using assms(2) non_success_fails by blast
  show ?thesis
  proof (cases mu)
    case ToggleState
    then show ?thesis using failed_toggle [OF assms(1)] f by simp
  next
    case (Assign lg)
    then show ?thesis using failed_assign [OF assms(1)] f by simp
  next
    case (ToggleLabel n)
    then show ?thesis using failed_label [OF assms(1)] f by simp
  next
    case AddComment
    then show ?thesis by (simp add: comment_keeps)
  qed
qed

theorem failed_mutation_leaves_deck_witness:
  "selectedIssue ((deck_of [issue_a, issue_c])\<lparr>selectedIssue := Some issue_a\<rparr>) = Some issue_a
   \<and> write_endpoint rejecting_upstream (write_of ToggleState closed_modal issue_a)
        = Http 422 ''Validation Failed'' ()
   \<and> \<not> response_ok 422
   \<and> state issue_a = Open
   \<and> map state (issues (snd (handleToggleState rejecting_upstream
          (closed_modal, (deck_of [issue_a, issue_c])\<lparr>selectedIssue := Some issue_a\<rparr>))))
        = [Open, Open]"
proof -
  have h1: "selectedIssue ((deck_of [issue_a, issue_c])\<lparr>selectedIssue := Some issue_a\<rparr>) = Some issue_a"
    by simp
  have h2: "write_endpoint rejecting_upstream (write_of ToggleState closed_modal issue_a)
        = Http 422 ''Validation Failed'' ()"
    by (simp add: rejecting_upstream_def)
  have h3: "\<not> response_ok 422"
    by (simp add: response_ok_def)
  have h4: "call_fails rejecting_upstream (write_of ToggleState closed_modal issue_a)
           \<or> (\<exists>st txt. write_endpoint rejecting_upstream (write_of ToggleState closed_modal issue_a)
                  = Http st txt () \<and> \<not> response_ok st)"
    using h2 h3 by blast
  have st: "state issue_a = Open" "state issue_c = Open"
    by (simp_all add: issue_a_def issue_c_def)
  show ?thesis
    using h1 h2 h3 st failed_mutation_leaves_deck [OF h1 h4]
    by (simp add: deck_of_def)
qed

section \<open>Invariants of the lock, the timeouts and the refs\<close>

lemma lock_inv_reset: "lock_inv s \<Longrightarrow> lock_inv (resetAnimationLock s)"
  by (cases "safetyTimerRef s"; cases "timers s")
     (auto simp: lock_inv_def resetAnimationLock_def)

lemma reset_unlocked: "\<not> isAnimatingRef (resetAnimationLock s)"
  by (simp add: resetAnimationLock_def split: option.splits)

lemma lock_inv_fields:
  "isAnimatingRef s' = isAnimatingRef s \<Longrightarrow> safetyTimerRef s' = safetyTimerRef s
   \<Longrightarrow> timers s' = timers s \<Longrightarrow> timerCount s' = timerCount s
   \<Longrightarrow> lock_inv s' = lock_inv s"
  by (simp add: lock_inv_def)

lemma lock_inv_complete: "lock_inv s \<Longrightarrow> lock_inv (completeSwipe k s)"
  unfolding completeSwipe_def
  by (rule lock_inv_reset) (simp add: lock_inv_def)

lemma lock_inv_force: "lock_inv s \<Longrightarrow> lock_inv (forceSwipe d s)"
  by (cases "safetyTimerRef s")
     (auto simp: lock_inv_def forceSwipe_def Let_def list_all_iff)

lemma lock_inv_timeout: "lock_inv s \<Longrightarrow> lock_inv (safetyTimeout h s)"
proof (cases "map_of (timers s) h")
  case None
  assume "lock_inv s"
  then show ?thesis using None by (simp add: safetyTimeout_def)
next
  case (Some k)
  assume inv: "lock_inv s"
  from Some have "(h, k) \<in> set (timers s)" by (rule map_of_SomeD)
  then have "h \<in> set (map fst (timers s))" by force
  with inv have ref: "safetyTimerRef s = Some h" and lk: "isAnimatingRef s"
    by (auto simp: lock_inv_def split: option.splits)
  from inv ref obtain k' where tm: "timers s = [(h, k')]"
    by (cases "timers s") (auto simp: lock_inv_def)
  show ?thesis
    using Some tm ref lk inv
    by (simp add: safetyTimeout_def Let_def completeSwipe_def resetAnimationLock_def lock_inv_def)
qed

lemma lock_inv_settle: "lock_inv s \<Longrightarrow> lock_inv (settleEnd k s)"
proof -
  assume i: "lock_inv s"
  then have "lock_inv (s\<lparr>settling := remove1 k (settling s)\<rparr>)"
    by (simp add: lock_inv_def)
  then have "lock_inv (completeSwipe k (s\<lparr>settling := remove1 k (settling s)\<rparr>))"
    by (rule lock_inv_complete)
  then show ?thesis using i by (simp add: settleEnd_def)
qed

lemma lock_inv_handle: "lock_inv s \<Longrightarrow> lock_inv (handle e s)"
proof (cases e)
  case (SourceChange x)
  assume "lock_inv s" then show ?thesis using SourceChange by (simp add: handleSourceChange_def lock_inv_def)
next
  case (FiltersChange x)
  assume "lock_inv s" then show ?thesis using FiltersChange by (simp add: handleFiltersChange_def lock_inv_def)
next
  case (FetchSettled p r out)
  assume "lock_inv s" then show ?thesis using FetchSettled
    by (simp add: fetchIssues_finish_def lock_inv_def split: sum.splits)
next
  case (Grant dx dy)
  assume i: "lock_inv s"
  have "lock_inv (s\<lparr>spring := None, position := 0\<rparr>)" using i by (simp add: lock_inv_def)
  then show ?thesis using Grant i by (simp add: onPanResponderGrant_def lock_inv_reset)
next
  case (Move dx)
  assume "lock_inv s" then show ?thesis using Move by (simp add: onPanResponderMove_def lock_inv_def)
next
  case (Release dx vx)
  assume i: "lock_inv s"
  have "lock_inv (s\<lparr>spring := Some \<lparr>toValue = 0, friction = 7, tension = 80\<rparr>\<rparr>)" using i by (simp add: lock_inv_def)
  then show ?thesis using Release i by (simp add: onPanResponderRelease_def lock_inv_force)
next
  case Terminate
  assume i: "lock_inv s"
  have "lock_inv (s\<lparr>spring := None, position := 0\<rparr>)" using i by (simp add: lock_inv_def)
  then show ?thesis using Terminate by (simp add: onPanResponderTerminate_def lock_inv_reset)
next
  case (SafetyTimeout h)
  assume "lock_inv s" then show ?thesis using SafetyTimeout by (simp add: lock_inv_timeout)
next
  case (SettleEnd k)
  assume "lock_inv s" then show ?thesis using SettleEnd by (simp add: lock_inv_settle)
next
  case OpenDetail
  assume "lock_inv s" then show ?thesis using OpenDetail by (simp add: handleOpenDetail_def lock_inv_def)
next
  case (IssueUpdated u)
  assume "lock_inv s" then show ?thesis using IssueUpdated by (simp add: handleIssueUpdated_def lock_inv_def)
qed

lemma begin_fields:
  "isAnimatingRef (fetchIssues_begin p r s) = isAnimatingRef s"
  "safetyTimerRef (fetchIssues_begin p r s) = safetyTimerRef s"
  "timers (fetchIssues_begin p r s) = timers s"
  "timerCount (fetchIssues_begin p r s) = timerCount s"
  "issues (fetchIssues_begin p r s) = issues s"
  "currentIndex (fetchIssues_begin p r s) = currentIndex s"
  "currentIndexRef (fetchIssues_begin p r s) = currentIndexRef s"
  "issuesRef (fetchIssues_begin p r s) = issuesRef s"
  "settling (fetchIssues_begin p r s) = settling s"
  by (simp_all add: fetchIssues_begin_def Let_def)

lemma render_lock_fields:
  "isAnimatingRef (render old s) = isAnimatingRef s"
  "safetyTimerRef (render old s) = safetyTimerRef s"
  "timers (render old s) = timers s"
  "timerCount (render old s) = timerCount s"
  "settling (render old s) = settling s"
  by (simp_all add: render_def autoLoadMore_def syncRefs_def filtersEffect_def resetDeck_def begin_fields)

lemma lock_inv_step: "lock_inv s \<Longrightarrow> lock_inv (step e s)"
  unfolding step_def
  using lock_inv_fields [OF render_lock_fields(1-4), of s "handle e s"] lock_inv_handle [of s e]
  by simp

lemma complete_fields:
  "currentIndex (completeSwipe k s) = k"
  "currentIndexRef (completeSwipe k s) = k"
  "filters (completeSwipe k s) = filters s"
  "issues (completeSwipe k s) = issues s"
  "issuesRef (completeSwipe k s) = issuesRef s"
  "\<not> isAnimatingRef (completeSwipe k s)"
  "safetyTimerRef (completeSwipe k s) = None"
  by (simp_all add: completeSwipe_def resetAnimationLock_def split: option.splits)

lemma reset_fields:
  "currentIndex (resetAnimationLock s) = currentIndex s"
  "currentIndexRef (resetAnimationLock s) = currentIndexRef s"
  "filters (resetAnimationLock s) = filters s"
  "issues (resetAnimationLock s) = issues s"
  "issuesRef (resetAnimationLock s) = issuesRef s"
  by (simp_all add: resetAnimationLock_def split: option.splits)

lemma force_fields:
  "currentIndex (forceSwipe d s) = currentIndex s"
  "currentIndexRef (forceSwipe d s) = currentIndexRef s"
  "filters (forceSwipe d s) = filters s"
  "issues (forceSwipe d s) = issues s"
  "issuesRef (forceSwipe d s) = issuesRef s"
  by (simp_all add: forceSwipe_def Let_def)

lemma handle_ref_cases:
  "currentIndexRef (handle e s) = currentIndexRef s
   \<or> (currentIndexRef (handle e s) = currentIndex (handle e s)
       \<and> filters (handle e s) = filters s)"
proof (cases e)
  case (SafetyTimeout h)
  then show ?thesis
    by (simp add: safetyTimeout_def Let_def complete_fields split: option.splits)
next
  case (SettleEnd k)
  then show ?thesis by (simp add: settleEnd_def complete_fields)
next
  case (FetchSettled p r out)
  then show ?thesis by (simp add: fetchIssues_finish_def split: sum.splits)
next
  case (Release dx vx)
  then show ?thesis by (simp add: onPanResponderRelease_def force_fields)
qed (simp_all add: handleSourceChange_def handleFiltersChange_def onPanResponderGrant_def
      onPanResponderMove_def onPanResponderTerminate_def handleOpenDetail_def
      handleIssueUpdated_def reset_fields)

lemma render_index:
  "currentIndex (render old s)
     = (if filterDeps (filters s) \<noteq> filterDeps (filters old) then 0 else currentIndex s)"
  "issues (render old s)
     = (if filterDeps (filters s) \<noteq> filterDeps (filters old) then [] else issues s)"
  "issuesRef (render old s) = issues (render old s)"
  "currentIndexRef (render old s)
     = (if currentIndex (render old s) \<noteq> currentIndex old then currentIndex (render old s)
        else currentIndexRef s)"
  by (simp_all add: render_def autoLoadMore_def syncRefs_def filtersEffect_def resetDeck_def
        begin_fields)

lemma synced_step: "synced s \<Longrightarrow> synced (step e s)"
  using handle_ref_cases [of e s]
  by (auto simp: synced_def step_def render_index)


lemma wf_run: "lock_inv s \<and> synced s \<Longrightarrow> lock_inv (run evs s) \<and> synced (run evs s)"
proof (induction evs arbitrary: s)
  case Nil
  then show ?case by simp
next
  case (Cons e es)
  then show ?case by (simp add: lock_inv_step synced_step)
qed

lemma wf_mounted: "lock_inv (mounted w) \<and> synced (mounted w)"
  by (simp add: mounted_def filtersEffect_def resetDeck_def lock_inv_def synced_def
        begin_fields initialScreen_def)

lemma wf_reachable: "lock_inv (run evs (mounted w)) \<and> synced (run evs (mounted w))"
  by (rule wf_run) (rule wf_mounted)

section \<open>Properties of the safety timeout\<close>

lemma commit_state:
  assumes "lock_inv s" "\<not> isAnimatingRef s" "in_list (target_index dir s) s"
  shows "forceSwipe dir s =
           s\<lparr>isAnimatingRef := True, safetyTimerRef := Some (Suc (timerCount s)),
             timers := [(Suc (timerCount s), target_index dir s)],
             timerCount := Suc (timerCount s),
             spring := Some \<lparr>toValue = (if dir = SwipeLeft then - screenWidth s * (15 / 10)
                                           else screenWidth s * (15 / 10)),
                              friction = 8, tension = 40\<rparr>,
             settling := settling s @ [target_index dir s]\<rparr>"
proof -
  from assms(1,2) have "timers s = []"
    by (cases "safetyTimerRef s") (auto simp: lock_inv_def)
  then show ?thesis
    using assms(2,3)
    by (auto simp: forceSwipe_def Let_def in_list_def target_index_def)
qed

lemma timeout_after_commit:
  assumes "lock_inv s" "\<not> isAnimatingRef s" "in_list (target_index dir s) s"
  shows "currentIndex (safetyTimeout (Suc (timerCount s)) (forceSwipe dir s)) = target_index dir s"
    and "\<not> isAnimatingRef (safetyTimeout (Suc (timerCount s)) (forceSwipe dir s))"
    and "timers (safetyTimeout (Suc (timerCount s)) (forceSwipe dir s)) = []"
    and "settling (safetyTimeout (Suc (timerCount s)) (forceSwipe dir s)) = settling s @ [target_index dir s]"
  unfolding commit_state [OF assms]
  by (simp_all add: safetyTimeout_def Let_def completeSwipe_def resetAnimationLock_def)

lemma settle_after_commit:
  assumes "lock_inv s" "\<not> isAnimatingRef s" "in_list (target_index dir s) s"
  shows "currentIndex (settleEnd (target_index dir s) (forceSwipe dir s)) = target_index dir s"
    and "\<not> isAnimatingRef (settleEnd (target_index dir s) (forceSwipe dir s))"
    and "timers (settleEnd (target_index dir s) (forceSwipe dir s)) = []"
  unfolding commit_state [OF assms]
  by (simp_all add: settleEnd_def completeSwipe_def resetAnimationLock_def)

lemma settle_sets:
  "k \<in> set (settling s) \<Longrightarrow> currentIndex (settleEnd k s) = k \<and> \<not> isAnimatingRef (settleEnd k s)"
  by (simp add: settleEnd_def complete_fields)

lemma timeout_noop: "timers s = [] \<Longrightarrow> safetyTimeout h s = s"
  by (simp add: safetyTimeout_def)

lemma locked_timer:
  assumes "lock_inv s" "isAnimatingRef s"
  shows "\<exists>h k. safetyTimerRef s = Some h \<and> timers s = [(h, k)]
            \<and> \<not> isAnimatingRef (safetyTimeout h s) \<and> currentIndex (safetyTimeout h s) = k"
proof -
  from assms obtain h where ref: "safetyTimerRef s = Some h"
    by (auto simp: lock_inv_def)
  with assms(1) obtain k where tm: "timers s = [(h, k)]"
    by (cases "timers s") (auto simp: lock_inv_def)
  have "\<not> isAnimatingRef (safetyTimeout h s) \<and> currentIndex (safetyTimeout h s) = k"
    using ref tm assms(2)
    by (simp add: safetyTimeout_def Let_def complete_fields)
  then show ?thesis using ref tm by blast
qed

text \<open>
  C7. In every state the mounted screen can reach, a held lock comes with exactly one armed
  timeout, and when that timeout fires the lock is released and \<open>currentIndex\<close> is the
  index the timeout captured: the lock cannot be held forever once the timeout fires.
  For a swipe committed from such a state, the target is the index next to the current
  one; if the completion callback has not been invoked when the timeout fires,
  \<open>currentIndex\<close> becomes the target and the lock is released; a callback invoked
  after that leaves \<open>currentIndex\<close> at the target and the lock released; and if the
  callback comes first, the timeout is no longer armed and changes nothing.
\<close>

theorem safety_timeout_completes_swipe:
  assumes "s = run evs (mounted w)"
  shows "(isAnimatingRef s \<longrightarrow>
            (\<exists>h k. safetyTimerRef s = Some h \<and> timers s = [(h, k)]
               \<and> \<not> isAnimatingRef (safetyTimeout h s)
               \<and> currentIndex (safetyTimeout h s) = k))
       \<and> (\<not> isAnimatingRef s \<and> in_list (target_index dir s) s \<longrightarrow>
            (let committed = forceSwipe dir s;
                 h = Suc (timerCount s);
                 target = target_index dir s
             in target = (if dir = SwipeLeft then currentIndex s + 1 else currentIndex s - 1)
                \<and> isAnimatingRef committed
                \<and> currentIndex committed = currentIndex s
                \<and> timers committed = [(h, target)]
                \<and> target \<in> set (settling committed)
                \<and> currentIndex (safetyTimeout h committed) = target
                \<and> \<not> isAnimatingRef (safetyTimeout h committed)
                \<and> currentIndex (settleEnd target (safetyTimeout h committed)) = target
                \<and> \<not> isAnimatingRef (settleEnd target (safetyTimeout h committed))
                \<and> currentIndex (safetyTimeout h (settleEnd target committed)) = target
                \<and> \<not> isAnimatingRef (safetyTimeout h (settleEnd target committed))))"
proof (intro conjI impI)
  have inv: "lock_inv s" and syn: "synced s"
    using assms wf_reachable by simp_all
  {
    assume "isAnimatingRef s"
    then show "\<exists>h k. safetyTimerRef s = Some h \<and> timers s = [(h, k)]
               \<and> \<not> isAnimatingRef (safetyTimeout h s)
               \<and> currentIndex (safetyTimeout h s) = k"
      using locked_timer [OF inv] by blast
  }
  assume a: "\<not> isAnimatingRef s \<and> in_list (target_index dir s) s"
  then have free: "\<not> isAnimatingRef s" and tgt: "in_list (target_index dir s) s"
    by simp_all
  note c = commit_state [OF inv free tgt]
  note t = timeout_after_commit [OF inv free tgt]
  note e = settle_after_commit [OF inv free tgt]
  have t1: "target_index dir s = (if dir = SwipeLeft then currentIndex s + 1 else currentIndex s - 1)"
    using syn by (simp add: target_index_def synced_def)
  have c1: "isAnimatingRef (forceSwipe dir s)" "currentIndex (forceSwipe dir s) = currentIndex s"
      "timers (forceSwipe dir s) = [(Suc (timerCount s), target_index dir s)]"
      "target_index dir s \<in> set (settling (forceSwipe dir s))"
    unfolding c by simp_all
  have late: "currentIndex (settleEnd (target_index dir s) (safetyTimeout (Suc (timerCount s)) (forceSwipe dir s))) = target_index dir s
      \<and> \<not> isAnimatingRef (settleEnd (target_index dir s) (safetyTimeout (Suc (timerCount s)) (forceSwipe dir s)))"
    by (rule settle_sets) (simp add: t(4))
  have early: "safetyTimeout (Suc (timerCount s)) (settleEnd (target_index dir s) (forceSwipe dir s))
         = settleEnd (target_index dir s) (forceSwipe dir s)"
    by (rule timeout_noop) (rule e(3))
  show "let committed = forceSwipe dir s;
                 h = Suc (timerCount s);
                 target = target_index dir s
             in target = (if dir = SwipeLeft then currentIndex s + 1 else currentIndex s - 1)
                \<and> isAnimatingRef committed
                \<and> currentIndex committed = currentIndex s
                \<and> timers committed = [(h, target)]
                \<and> target \<in> set (settling committed)
                \<and> currentIndex (safetyTimeout h committed) = target
                \<and> \<not> isAnimatingRef (safetyTimeout h committed)
                \<and> currentIndex (settleEnd target (safetyTimeout h committed)) = target
                \<and> \<not> isAnimatingRef (settleEnd target (safetyTimeout h committed))
                \<and> currentIndex (safetyTimeout h (settleEnd target committed)) = target
                \<and> \<not> isAnimatingRef (safetyTimeout h (settleEnd target committed))"
    unfolding Let_def early
    using t1 c1 t(1,2) late e(1,2) by simp
qed

lemma two_cards_fields:
  "issues two_cards = [issue_a, issue_c]" "currentIndex two_cards = 0" "currentIndexRef two_cards = 0"
  "issuesRef two_cards = [issue_a, issue_c]" "\<not> isAnimatingRef two_cards" "timerCount two_cards = 0"
  "timers two_cards = []" "safetyTimerRef two_cards = None" "settling two_cards = []"
  by (simp_all add: two_cards_def step_def render_def autoLoadMore_def syncRefs_def
        fetchIssues_finish_def page_of_def mounted_def filtersEffect_def resetDeck_def
        fetchIssues_begin_def fetch_target_def initialScreen_def Let_def)

lemma swiping_cards_fields:
  "isAnimatingRef swiping_cards" "safetyTimerRef swiping_cards = Some 1"
  "timers swiping_cards = [(1, 1)]" "currentIndex swiping_cards = 0"
  by (simp_all add: swiping_cards_def step_def render_def autoLoadMore_def syncRefs_def
        fetchIssues_finish_def page_of_def mounted_def filtersEffect_def resetDeck_def
        fetchIssues_begin_def fetch_target_def initialScreen_def Let_def
        onMoveShouldSetPanResponder_def onPanResponderGrant_def resetAnimationLock_def
        onPanResponderRelease_def swipedLeft_def swipedRight_def SWIPE_THRESHOLD_def
        SWIPE_VELOCITY_THRESHOLD_def forceSwipe_def)

theorem safety_timeout_completes_swipe_witness:
  "\<not> isAnimatingRef two_cards \<and> in_list (target_index SwipeLeft two_cards) two_cards
   \<and> currentIndex two_cards = 0
   \<and> isAnimatingRef (forceSwipe SwipeLeft two_cards)
   \<and> currentIndex (safetyTimeout 1 (forceSwipe SwipeLeft two_cards)) = 1
   \<and> \<not> isAnimatingRef (safetyTimeout 1 (forceSwipe SwipeLeft two_cards))
   \<and> currentIndex (settleEnd 1 (safetyTimeout 1 (forceSwipe SwipeLeft two_cards))) = 1
   \<and> \<not> isAnimatingRef (settleEnd 1 (safetyTimeout 1 (forceSwipe SwipeLeft two_cards)))
   \<and> isAnimatingRef swiping_cards
   \<and> currentIndex swiping_cards = 0
   \<and> \<not> isAnimatingRef (safetyTimeout 1 swiping_cards)
   \<and> currentIndex (safetyTimeout 1 swiping_cards) = 1"
proof -
  have r: "two_cards = run [FetchSettled 1 True (Inr (page_of [issue_a, issue_c]))] (mounted 400)"
    by (rule two_cards_def)
  have r2: "swiping_cards =
     run [FetchSettled 1 True (Inr (page_of [issue_a, issue_c])), Grant (-20) 0,
          Release (-60) 0] (mounted 400)"
    by (rule swiping_cards_def)
  have h: "\<not> isAnimatingRef two_cards \<and> in_list (target_index SwipeLeft two_cards) two_cards"
    by (simp add: two_cards_fields in_list_def target_index_def)
  have h2: "isAnimatingRef swiping_cards"
    by (rule swiping_cards_fields)
  show ?thesis
    using h h2 safety_timeout_completes_swipe [OF r, of SwipeLeft]
      safety_timeout_completes_swipe [OF r2, of SwipeLeft]
    by (simp add: Let_def two_cards_fields swiping_cards_fields target_index_def)
qed

section \<open>Properties of the filter effect and of page loading\<close>

lemma begin_other_fields:
  "filters (fetchIssues_begin p r s) = filters s"
  "page (fetchIssues_begin p r s) = page s"
  "hasMore (fetchIssues_begin p r s) = hasMore s"
  "requested (fetchIssues_begin p r s)
     = (if fetch_target (filters s)
        then requested s @ [\<lparr>fr_page = p, fr_reset = r, fr_filters = filters s\<rparr>]
        else requested s)"
  by (simp_all add: fetchIssues_begin_def Let_def)

lemma sync_other_fields:
  "issues (syncRefs old s) = issues s" "currentIndex (syncRefs old s) = currentIndex s"
  "filters (syncRefs old s) = filters s" "requested (syncRefs old s) = requested s"
  "page (syncRefs old s) = page s" "hasMore (syncRefs old s) = hasMore s"
  "loadingMore (syncRefs old s) = loadingMore s"
  by (simp_all add: syncRefs_def)

lemma autoLoad_empty: "issues s = [] \<Longrightarrow> autoLoadMore old s = s"
  by (simp add: autoLoadMore_def)

lemma render_filters_changed:
  assumes "filterDeps (filters x) \<noteq> filterDeps (filters old)"
  shows "render old x = syncRefs old (fetchIssues_begin 1 True (resetDeck x))"
proof -
  have "issues (syncRefs old (fetchIssues_begin 1 True (resetDeck x))) = []"
    by (simp add: sync_other_fields begin_fields resetDeck_def)
  then show ?thesis
    using assms by (simp add: render_def filtersEffect_def autoLoad_empty)
qed

text \<open>
  A change of the filters in one of the seven fields the effect depends on: the effect
  clears the loaded items, sets \<open>currentIndex\<close> to 0, the page to 1 and \<open>hasMore\<close> to true,
  and only then calls \<open>fetchIssues(1, true)\<close>.
\<close>

lemma deps_change_resets_deck:
  assumes ev: "e = FiltersChange f
               \<or> (\<exists>source. e = SourceChange source \<and> f = filters (handleSourceChange source s))"
      and diff: "filterDeps f \<noteq> filterDeps (filters s)"
  shows "\<exists>cleared. issues cleared = [] \<and> currentIndex cleared = 0 \<and> page cleared = 1
           \<and> hasMore cleared \<and> filters cleared = f \<and> requested cleared = requested s
           \<and> step e s = syncRefs s (fetchIssues_begin 1 True cleared)
           \<and> issues (step e s) = [] \<and> currentIndex (step e s) = 0
           \<and> filters (step e s) = f
           \<and> requested (step e s)
               = (if fetch_target f
                  then requested s @ [\<lparr>fr_page = 1, fr_reset = True, fr_filters = f\<rparr>]
                  else requested s)"
proof -
  have hf: "filters (handle e s) = f" and hr: "requested (handle e s) = requested s"
    using ev by (auto simp: handleFiltersChange_def handleSourceChange_def)
  have d: "filterDeps (filters (handle e s)) \<noteq> filterDeps (filters s)"
    using diff hf by simp
  let ?c = "resetDeck (handle e s)"
  have st: "step e s = syncRefs s (fetchIssues_begin 1 True ?c)"
    unfolding step_def by (rule render_filters_changed [OF d])
  have c: "issues ?c = []" "currentIndex ?c = 0" "page ?c = 1" "hasMore ?c" "filters ?c = f"
     "requested ?c = requested s"
    using hf hr by (simp_all add: resetDeck_def)
  show ?thesis
    apply (rule exI [of _ ?c])
    unfolding st
    using c by (simp add: sync_other_fields begin_fields begin_other_fields)
qed

text \<open>
  The effect does not depend on the labels, which \<open>fetchIssues\<close> passes to the service.
  The filters of the running screen never carry labels or a repository, so two of them
  that differ, differ in a field the effect depends on.
\<close>

lemma deps_ignore_labels: "filterDeps (f\<lparr>f_labels := l\<rparr>) = filterDeps f"
  by (simp add: filterDeps_def)

lemma render_filters: "filters (render old x) = filters x"
  by (simp add: render_def autoLoadMore_def syncRefs_def filtersEffect_def resetDeck_def
        begin_other_fields)

lemma handle_filters:
  "\<not> (\<exists>x. e = SourceChange x) \<Longrightarrow> \<not> (\<exists>f. e = FiltersChange f)
   \<Longrightarrow> filters (handle e s) = filters s"
proof (cases e)
  case (SafetyTimeout h)
  then show ?thesis
    by (simp add: safetyTimeout_def Let_def complete_fields split: option.splits)
next
  case (SettleEnd k)
  then show ?thesis by (simp add: settleEnd_def complete_fields)
next
  case (FetchSettled p r out)
  then show ?thesis by (simp add: fetchIssues_finish_def split: sum.splits)
next
  case (Release dx vx)
  then show ?thesis by (simp add: onPanResponderRelease_def force_fields)
qed (simp_all add: onPanResponderGrant_def
      onPanResponderMove_def onPanResponderTerminate_def handleOpenDetail_def
      handleIssueUpdated_def reset_fields)

lemma update_ui_filters: "ui_filters f \<Longrightarrow> ui_filters (update f p)"
  by (cases p) (simp_all add: ui_filters_def)

lemma source_ui_filters: "ui_filters (filters (handleSourceChange source s))"
  by (simp add: ui_filters_def handleSourceChange_def)

lemma app_step_ui_filters:
  assumes "ui_filters (filters s)"
  shows "ui_filters (filters (app_step ae s))"
proof (cases ae)
  case (Press p)
  then show ?thesis
    using update_ui_filters [OF assms, of p]
    by (simp add: step_def render_filters handleFiltersChange_def)
next
  case (OrgsLoaded os)
  then show ?thesis using assms by (simp add: render_filters)
next
  case (Occurs e)
  show ?thesis
  proof (cases "(\<exists>x. e = SourceChange x) \<or> (\<exists>f. e = FiltersChange f)")
    case True
    then show ?thesis
      using Occurs assms source_ui_filters
      by (auto simp: step_def render_filters)
  next
    case False
    then have nf: "\<not> (\<exists>x. e = SourceChange x)" "\<not> (\<exists>f. e = FiltersChange f)" by simp_all
    then have "app_step (Occurs e) s = step e s" by (cases e) simp_all
    then show ?thesis
      using Occurs assms handle_filters [OF nf, of s] by (simp add: step_def render_filters)
  qed
qed

lemma app_run_ui_filters:
  "ui_filters (filters s) \<Longrightarrow> ui_filters (filters (app_run evs s))"
  by (induction evs arbitrary: s) (simp_all add: app_step_ui_filters)

lemma mounted_ui_filters: "ui_filters (filters (mounted w))"
  by (simp add: mounted_def filtersEffect_def begin_other_fields resetDeck_def
        initialScreen_def ui_filters_def)

lemma ui_filters_deps:
  "ui_filters f \<Longrightarrow> ui_filters g \<Longrightarrow> f \<noteq> g \<Longrightarrow> filterDeps f \<noteq> filterDeps g"
  by (cases f; cases g) (auto simp: ui_filters_def filterDeps_def)

text \<open>
  C2. On the running screen, when a press in \<open>FilterBar\<close> or a change of the source asks
  for filters that differ from the active ones in any field, the effect clears the loaded
  items, sets \<open>currentIndex\<close> to 0, the page to 1 and \<open>hasMore\<close> to true, and only then
  calls \<open>fetchIssues(1, true)\<close>, which requests the first page for the new filters (unless
  the organization source has no organization, when nothing is requested).
\<close>

theorem filter_change_resets_deck:
  assumes reach: "s = app_run evs (mounted w)"
      and ui: "(ae = Press p \<and> f = update (filters s) p)
               \<or> (ae = Occurs (SourceChange source)
                   \<and> f = filters (handleSourceChange source s))"
      and diff: "f \<noteq> filters s"
  shows "\<exists>cleared. issues cleared = [] \<and> currentIndex cleared = 0 \<and> page cleared = 1
           \<and> hasMore cleared \<and> filters cleared = f \<and> requested cleared = requested s
           \<and> app_step ae s = syncRefs s (fetchIssues_begin 1 True cleared)
           \<and> issues (app_step ae s) = [] \<and> currentIndex (app_step ae s) = 0
           \<and> filters (app_step ae s) = f
           \<and> requested (app_step ae s)
               = (if fetch_target f
                  then requested s @ [\<lparr>fr_page = 1, fr_reset = True, fr_filters = f\<rparr>]
                  else requested s)"
proof -
  have u: "ui_filters (filters s)"
    unfolding reach by (rule app_run_ui_filters [OF mounted_ui_filters])
  have uf: "ui_filters f"
    using ui update_ui_filters [OF u] source_ui_filters by auto
  have d: "filterDeps f \<noteq> filterDeps (filters s)"
    by (rule ui_filters_deps [OF uf u diff])
  from ui obtain e where e: "app_step ae s = step e s"
      and ev: "e = FiltersChange f
               \<or> (\<exists>source. e = SourceChange source \<and> f = filters (handleSourceChange source s))"
    by auto
  show ?thesis
    unfolding e by (rule deps_change_resets_deck [OF ev d])
qed

lemma first_page_deck_fields:
  "issues first_page_deck = [issue_a, issue_c]"
  "filters first_page_deck = filters (initialScreen 400)"
  "requested first_page_deck
     = [\<lparr>fr_page = 1, fr_reset = True, fr_filters = filters (initialScreen 400)\<rparr>]"
  by (simp_all add: first_page_deck_def mounted_def filtersEffect_def resetDeck_def
        initialScreen_def fetchIssues_begin_def fetch_target_def Let_def step_def render_def
        fetchIssues_finish_def page_of_def filterDeps_def syncRefs_def autoLoadMore_def)

theorem filter_change_resets_deck_witness:
  "issues first_page_deck = [issue_a, issue_c]
   \<and> update (filters first_page_deck) StateChip = closed_filters
   \<and> closed_filters \<noteq> filters first_page_deck
   \<and> issues (app_step (Press StateChip) first_page_deck) = []
   \<and> currentIndex (app_step (Press StateChip) first_page_deck) = 0
   \<and> requested (app_step (Press StateChip) first_page_deck)
       = [\<lparr>fr_page = 1, fr_reset = True, fr_filters = filters (initialScreen 400)\<rparr>,
          \<lparr>fr_page = 1, fr_reset = True, fr_filters = closed_filters\<rparr>]"
proof -
  have r: "first_page_deck
     = app_run [Occurs (FetchSettled 1 True (Inr (page_of [issue_a, issue_c])))] (mounted 400)"
    by (rule first_page_deck_def)
  have p: "(Press StateChip = Press StateChip
             \<and> closed_filters = update (filters first_page_deck) StateChip)
           \<or> (Press StateChip = Occurs (SourceChange SourceAll)
               \<and> closed_filters = filters (handleSourceChange SourceAll first_page_deck))"
    by (simp add: first_page_deck_fields closed_filters_def initialScreen_def)
  have d: "closed_filters \<noteq> filters first_page_deck"
    by (simp add: first_page_deck_fields closed_filters_def initialScreen_def)
  have t: "fetch_target closed_filters"
    by (simp add: closed_filters_def fetch_target_def initialScreen_def)
  from filter_change_resets_deck [OF r p d]
  have "issues (app_step (Press StateChip) first_page_deck) = []
     \<and> currentIndex (app_step (Press StateChip) first_page_deck) = 0
     \<and> requested (app_step (Press StateChip) first_page_deck)
         = (if fetch_target closed_filters
            then requested first_page_deck
                   @ [\<lparr>fr_page = 1, fr_reset = True, fr_filters = closed_filters\<rparr>]
            else requested first_page_deck)"
    by blast
  then show ?thesis
    using p d t by (simp add: first_page_deck_fields)
qed


lemma finish_issues:
  "issues (fetchIssues_finish p False out s)
     = issues s @ (case out of Inl e \<Rightarrow> [] | Inr result \<Rightarrow> items result)"
  "currentIndex (fetchIssues_finish p False out s) = currentIndex s"
  by (simp_all add: fetchIssues_finish_def split: sum.splits)

lemma fetch_append:
  "issues (fetchIssues up (page s + 1) False s) = issues s @ page_items up s"
  "currentIndex (fetchIssues up (page s + 1) False s) = currentIndex s"
  by (simp_all add: fetchIssues_def page_items_def finish_issues begin_fields)

lemma fetch_reset:
  "fetch_target (filters s) \<Longrightarrow> fetchIssues_service up (filters s) 1 = Inr result
   \<Longrightarrow> issues (fetchIssues up 1 True s) = items result \<and> currentIndex (fetchIssues up 1 True s) = 0"
  by (simp add: fetchIssues_def fetchIssues_finish_def)

lemma load_more_issues:
  "issues (load_more ups s) = issues s @ appended ups s
   \<and> currentIndex (load_more ups s) = currentIndex s"
proof (induction ups arbitrary: s)
  case Nil
  then show ?case by simp
next
  case (Cons up ups)
  show ?case by (simp add: Cons.IH fetch_append)
qed

text \<open>
  C3 (amended). Loading further pages appends the items of each page that arrives to the
  tail of the deck, as they come and in order, and leaves \<open>currentIndex\<close> alone; a reset
  fetch that succeeds makes the deck the items of its page. So the cumulative deck holds no
  two items with the same (repository, number) key exactly when the deck before had none,
  the appended pages have none among themselves, and no appended key was in the deck
  already: nothing removes a duplicate.
\<close>

theorem deck_is_concatenation_of_pages:
  "issues (load_more ups s) = issues s @ appended ups s
   \<and> currentIndex (load_more ups s) = currentIndex s
   \<and> (distinct (map issue_key (issues (load_more ups s)))
        \<longleftrightarrow> distinct (map issue_key (issues s))
            \<and> distinct (map issue_key (appended ups s))
            \<and> set (map issue_key (issues s)) \<inter> set (map issue_key (appended ups s)) = {})
   \<and> (fetch_target (filters s) \<and> fetchIssues_service up (filters s) 1 = Inr result
        \<longrightarrow> issues (fetchIssues up 1 True s) = items result)"
  using load_more_issues [of ups s] fetch_reset [of s up result]
  by simp

lemma key_raw: "issue_key (normalizeSearchIssue (raw_issue n)) = (''octo/app'', int n)"
  by (simp add: issue_key_def normalizeSearchIssue_def raw_issue_def or_empty_def split_on_def
        part_or_empty_def Let_def)

lemma service_feed:
  "f_source f = SourceAll \<Longrightarrow>
   fetchIssues_service (feed_upstream feed) f p
     = Inr (search_page
            \<lparr>sd_items = Some (take 20 (drop (nat ((p - 1) * 20)) feed)),
             sd_total_count = Some (int (length feed))\<rparr> 20)"
  by (simp add: fetchIssues_service_def feed_fetchAll)

lemma mounted_fields: "filters (mounted w) = filters (initialScreen w)" "f_source (filters (initialScreen w)) = SourceAll"
   "fetch_target (filters (initialScreen w))"
  by (simp_all add: mounted_def filtersEffect_def resetDeck_def begin_other_fields initialScreen_def fetch_target_def)

lemma first_page:
  "issues (fetchIssues (feed_upstream feed21) 1 True (mounted 400)) = map normalizeSearchIssue (take 20 feed21)"
  "page (fetchIssues (feed_upstream feed21) 1 True (mounted 400)) = 1"
  "filters (fetchIssues (feed_upstream feed21) 1 True (mounted 400)) = filters (initialScreen 400)"
  by (simp_all add: fetchIssues_def mounted_fields service_feed fetchIssues_finish_def search_page_def or_nil_def begin_other_fields)

lemma t1: "take 20 feed21 = map raw_issue [1..<21]"
  by code_simp

lemma t2: "take 20 (drop 20 feed21_shifted) = map raw_issue [20, 21]"
  by code_simp

lemma second_page:
  "page_items (feed_upstream feed21_shifted)
     (fetchIssues (feed_upstream feed21) 1 True (mounted 400))
     = map normalizeSearchIssue (map raw_issue [20, 21])"
  by (simp add: page_items_def first_page mounted_fields service_feed search_page_def
        or_nil_def t2)

lemma overlap_keys:
  "map issue_key (issues overlapping_load)
     = map (\<lambda>n. (''octo/app'', int n)) ([1..<21] @ [20, 21])"
proof -
  have "issues overlapping_load
          = map normalizeSearchIssue (map raw_issue [1..<21])
            @ map normalizeSearchIssue (map raw_issue [20, 21])"
    unfolding overlapping_load_def
    using load_more_issues [of "[feed_upstream feed21_shifted]"
            "fetchIssues (feed_upstream feed21) 1 True (mounted 400)"]
    by (simp add: second_page first_page(1) t1 del: upt_Suc)
  then show ?thesis
    by (simp add: key_raw comp_def del: upt_Suc)
qed

text \<open>
  C3, as stated, fails: with the filters fixed, the first page is loaded from a feed of 21
  issues; one more issue enters the head of the feed; the second page then starts with the
  issue that closed the first page, and the deck holds it twice.
\<close>

theorem overlapping_pages_duplicate_counterexample:
  "\<not> distinct (map issue_key (issues overlapping_load))"
proof -
  have "(''octo/app'', 20) \<in> set (map (\<lambda>n. (''octo/app'', int n)) [1..<21])"
    by (simp add: image_iff)
  then show ?thesis
    unfolding overlap_keys by (simp del: upt_Suc)
qed

lemma t3: "take 20 (drop 20 feed21) = map raw_issue [21]"
  by code_simp

lemma third_page:
  "page_items (feed_upstream feed21)
     (fetchIssues (feed_upstream feed21) 1 True (mounted 400))
     = map normalizeSearchIssue (map raw_issue [21])"
  by (simp add: page_items_def first_page mounted_fields service_feed search_page_def
        or_nil_def t3)

theorem deck_is_concatenation_of_pages_witness:
  "fetch_target (filters (mounted 400))
   \<and> fetchIssues_service (feed_upstream feed21) (filters (mounted 400)) 1
       = Inr (search_page \<lparr>sd_items = Some (take 20 feed21), sd_total_count = Some 21\<rparr> 20)
   \<and> length (issues (fetchIssues (feed_upstream feed21) 1 True (mounted 400))) = 20
   \<and> length (issues (load_more [feed_upstream feed21]
                       (fetchIssues (feed_upstream feed21) 1 True (mounted 400)))) = 21
   \<and> distinct (map issue_key
                  (issues (load_more [feed_upstream feed21]
                             (fetchIssues (feed_upstream feed21) 1 True (mounted 400)))))"
proof -
  let ?s = "fetchIssues (feed_upstream feed21) 1 True (mounted 400)"
  have h1: "fetch_target (filters (mounted 400))"
    by (simp add: mounted_fields)
  have h2: "fetchIssues_service (feed_upstream feed21) (filters (mounted 400)) 1
       = Inr (search_page \<lparr>sd_items = Some (take 20 feed21), sd_total_count = Some 21\<rparr> 20)"
    by (simp add: mounted_fields service_feed feed21_def)
  have a: "appended [feed_upstream feed21] ?s = map normalizeSearchIssue (map raw_issue [21])"
    by (simp add: third_page)
  have k: "map issue_key (issues ?s) = map (\<lambda>n. (''octo/app'', int n)) [1..<21]"
    by (simp add: first_page(1) t1 key_raw comp_def del: upt_Suc)
  have d: "distinct (map (\<lambda>n. (''octo/app'', int n)) [1..<21])"
    by (simp add: distinct_map inj_on_def del: upt_Suc)
  have n: "(''octo/app'', 21) \<notin> set (map (\<lambda>n. (''octo/app'', int n)) [1..<21])"
    by (auto simp del: upt_Suc)
  have l: "length (issues ?s) = 20"
    by (simp add: first_page(1) t1 del: upt_Suc)
  from deck_is_concatenation_of_pages [of "[]" "mounted 400" "feed_upstream feed21"
            "search_page \<lparr>sd_items = Some (take 20 feed21), sd_total_count = Some 21\<rparr> 20"]
       h1 h2
  have r: "issues ?s
             = items (search_page \<lparr>sd_items = Some (take 20 feed21),
                                   sd_total_count = Some 21\<rparr> 20)"
    by blast
  from deck_is_concatenation_of_pages [of "[feed_upstream feed21]" ?s]
  have c: "issues (load_more [feed_upstream feed21] ?s)
             = issues ?s @ appended [feed_upstream feed21] ?s"
    and e: "distinct (map issue_key (issues (load_more [feed_upstream feed21] ?s)))
        \<longleftrightarrow> distinct (map issue_key (issues ?s))
            \<and> distinct (map issue_key (appended [feed_upstream feed21] ?s))
            \<and> set (map issue_key (issues ?s))
                \<inter> set (map issue_key (appended [feed_upstream feed21] ?s)) = {}"
    by blast+
  have "distinct (map issue_key (issues (load_more [feed_upstream feed21] ?s)))"
    unfolding e a k using d n by (simp add: key_raw del: upt_Suc)
  moreover have "length (issues (load_more [feed_upstream feed21] ?s)) = 21"
    unfolding c a using l by simp
  moreover have "length (issues ?s) = 20"
    unfolding r by (simp add: search_page_def or_nil_def feed21_def)
  ultimately show ?thesis
    using h1 h2 by simp
qed


lemmas ev_defs = step_def render_def autoLoadMore_def syncRefs_def
        fetchIssues_finish_def page_of_def mounted_def filtersEffect_def resetDeck_def
        fetchIssues_begin_def fetch_target_def initialScreen_def Let_def
        onMoveShouldSetPanResponder_def onPanResponderGrant_def resetAnimationLock_def
        onPanResponderRelease_def swipedLeft_def swipedRight_def SWIPE_THRESHOLD_def
        SWIPE_VELOCITY_THRESHOLD_def forceSwipe_def handleFiltersChange_def closed_filters_def
        filterDeps_def safetyTimeout_def completeSwipe_def

section \<open>Properties of the deck bounds\<close>

text \<open>
  An attempted swipe whose target index is outside the loaded list starts the bounce spring
  toward the centre and changes nothing else: \<open>currentIndex\<close>, the lock and the
  timeouts stay as they are.
\<close>

lemma edge_swipe_is_noop:
  "\<not> isAnimatingRef s \<Longrightarrow> \<not> in_list (target_index dir s) s \<Longrightarrow>
   forceSwipe dir s = s\<lparr>spring := Some \<lparr>toValue = 0, friction = 6, tension = 80\<rparr>\<rparr>"
  by (auto simp: forceSwipe_def Let_def in_list_def target_index_def)

text \<open>
  C5. The edge guard of \<open>forceSwipe\<close> holds (\<open>edge_swipe_is_noop\<close>), but the bound on
  \<open>currentIndex\<close> does not follow from it. A committed swipe keeps the target index it
  computed against the list of that moment; when the filters change and the first page of
  the new feed arrives before the swipe completes, the completion writes that index over
  the reset one. Here the deck ends with one issue and \<open>currentIndex = 1\<close>.
\<close>

theorem stale_swipe_target_breaks_bounds:
  "issues (run swipe_then_refilter (mounted 400)) = [issue_b]
   \<and> currentIndex (run swipe_then_refilter (mounted 400)) = 1
   \<and> \<not> in_bounds (run swipe_then_refilter (mounted 400))"
  by (simp add: swipe_then_refilter_def in_bounds_def ev_defs)

subsection \<open>What holds when no completion outlives a reset\<close>

text \<open>
  In a calm run, where the filters change and a reset fetch completes only while no
  timeout is armed and no completion callback is outstanding, \<open>currentIndex\<close> stays an
  index of the list: every pending target was checked against the list it will be
  written into, or against a shorter prefix of it.
\<close>

lemma deck_ok_fields:
  "issues s' = issues s \<Longrightarrow> currentIndex s' = currentIndex s \<Longrightarrow> timers s' = timers s
   \<Longrightarrow> settling s' = settling s \<Longrightarrow> deck_ok s' = deck_ok s"
  by (simp add: deck_ok_def pending_targets_def)

lemma deck_ok_shrink:
  assumes "deck_ok s" "issues s' = issues s" "currentIndex s' = currentIndex s"
    "set (pending_targets s') \<subseteq> set (pending_targets s)"
  shows "deck_ok s'"
  using assms by (auto simp: deck_ok_def list_all_iff)

lemma pending_reset:
  "set (pending_targets (resetAnimationLock s)) \<subseteq> set (pending_targets s)"
  by (auto simp: pending_targets_def resetAnimationLock_def split: option.splits)

lemma deck_ok_reset: "deck_ok s \<Longrightarrow> deck_ok (resetAnimationLock s)"
  by (rule deck_ok_shrink [where s = s]) (simp_all add: reset_fields pending_reset)

lemma deck_ok_complete_raw:
  assumes "deck_ok s" "0 \<le> k \<and> k < int (length (issues s))"
  shows "deck_ok (completeSwipe k s)"
proof -
  let ?m = "s\<lparr>position := 0, spring := None, currentIndexRef := k, currentIndex := k\<rparr>"
  have "deck_ok ?m"
    using assms by (auto simp: deck_ok_def pending_targets_def)
  then show ?thesis
    unfolding completeSwipe_def by (rule deck_ok_reset)
qed

lemma deck_ok_force:
  assumes "deck_ok s" "issuesRef s = issues s"
  shows "deck_ok (forceSwipe d s)"
  using assms
  by (auto simp: deck_ok_def pending_targets_def forceSwipe_def Let_def)

lemma deck_ok_timeout: "deck_ok s \<Longrightarrow> deck_ok (safetyTimeout h s)"
proof (cases "map_of (timers s) h")
  case None
  assume "deck_ok s"
  then show ?thesis using None by (simp add: safetyTimeout_def)
next
  case (Some k)
  assume ok: "deck_ok s"
  let ?m = "s\<lparr>timers := filter (\<lambda>t. fst t \<noteq> h) (timers s)\<rparr>"
  from Some have "(h, k) \<in> set (timers s)" by (rule map_of_SomeD)
  then have kp: "k \<in> set (pending_targets s)"
    by (force simp: pending_targets_def)
  have sub: "set (pending_targets ?m) \<subseteq> set (pending_targets s)"
    by (auto simp: pending_targets_def)
  have m: "deck_ok ?m"
    by (rule deck_ok_shrink [OF ok _ _ sub]) simp_all
  have b: "0 \<le> k \<and> k < int (length (issues ?m))"
    using ok kp by (auto simp: deck_ok_def list_all_iff)
  have "deck_ok (completeSwipe k ?m)"
    by (rule deck_ok_complete_raw [OF m b])
  then show ?thesis
    using Some m by (simp add: safetyTimeout_def Let_def)
qed

lemma deck_ok_settle: "deck_ok s \<Longrightarrow> deck_ok (settleEnd k s)"
proof (cases "k \<in> set (settling s)")
  case False
  assume "deck_ok s"
  then show ?thesis using False by (simp add: settleEnd_def)
next
  case True
  assume ok: "deck_ok s"
  let ?m = "s\<lparr>settling := remove1 k (settling s)\<rparr>"
  have b: "0 \<le> k \<and> k < int (length (issues ?m))"
    using ok True by (auto simp: deck_ok_def list_all_iff pending_targets_def)
  have sub: "set (pending_targets ?m) \<subseteq> set (pending_targets s)"
    using set_remove1_subset [of k "settling s"] by (auto simp: pending_targets_def)
  have m: "deck_ok ?m"
    by (rule deck_ok_shrink [OF ok _ _ sub]) simp_all
  have "deck_ok (completeSwipe k ?m)"
    by (rule deck_ok_complete_raw [OF m b])
  then show ?thesis
    using True by (simp add: settleEnd_def)
qed

lemma pending_issues_update:
  "pending_targets (s\<lparr>issues := xs\<rparr>) = pending_targets s"
  "pending_targets (s\<lparr>currentIndex := k\<rparr>) = pending_targets s"
  "pending_targets (s\<lparr>shownTotal := n\<rparr>) = pending_targets s"
  "pending_targets (s\<lparr>hasMore := b\<rparr>) = pending_targets s"
  "pending_targets (s\<lparr>page := p\<rparr>) = pending_targets s"
  "pending_targets (s\<lparr>loading := b\<rparr>) = pending_targets s"
  "pending_targets (s\<lparr>loadingMore := b\<rparr>) = pending_targets s"
  by (simp_all add: pending_targets_def)

lemma deck_ok_append:
  assumes "deck_ok s"
  shows "deck_ok (s\<lparr>issues := issues s @ xs\<rparr>)"
proof -
  have "list_all (\<lambda>k. 0 \<le> k \<and> k < int (length (issues s))) (pending_targets s)"
    using assms by (simp add: deck_ok_def)
  then have "list_all (\<lambda>k. 0 \<le> k \<and> k < int (length (issues s @ xs))) (pending_targets s)"
    by (rule list.pred_mono_strong) simp
  moreover have "if issues s @ xs = [] then currentIndex s = 0
       else 0 \<le> currentIndex s \<and> currentIndex s < int (length (issues s @ xs))"
    using assms by (cases "issues s = []") (auto simp: deck_ok_def)
  ultimately show ?thesis
    by (auto simp: deck_ok_def pending_issues_update split: if_splits)
qed

lemma deck_ok_finish:
  assumes "deck_ok s" "r \<longrightarrow> pending_targets s = []"
  shows "deck_ok (fetchIssues_finish p r out s)"
proof (cases out)
  case (Inl e)
  have "deck_ok (fetchIssues_finish p r out s) = deck_ok s"
    by (rule deck_ok_fields) (simp_all add: fetchIssues_finish_def Inl)
  then show ?thesis using assms(1) by simp
next
  case (Inr result)
  show ?thesis
  proof (cases r)
    case True
    then have "pending_targets s = []" using assms(2) by simp
    then show ?thesis
      using Inr True by (simp add: fetchIssues_finish_def deck_ok_def pending_targets_def)
  next
    case False
    have "deck_ok (fetchIssues_finish p r out s)
            = deck_ok (s\<lparr>issues := issues s @ items result\<rparr>)"
      by (rule deck_ok_fields) (simp_all add: fetchIssues_finish_def Inr False)
    then show ?thesis
      using deck_ok_append [OF assms(1)] by simp
  qed
qed

lemma deck_ok_set_filters:
  assumes "pending_targets s = []" "deck_ok s"
  shows "deck_ok (render s (s\<lparr>filters := f\<rparr>))"
  using assms
  by (simp add: deck_ok_def pending_targets_def render_index render_lock_fields)

lemma deck_ok_render_same:
  assumes "filters x = filters s" "deck_ok x"
  shows "deck_ok (render s x)"
proof -
  have "deck_ok (render s x) = deck_ok x"
    by (rule deck_ok_fields) (simp_all add: render_index render_lock_fields assms(1))
  then show ?thesis using assms(2) by simp
qed

lemma deck_ok_handle:
  assumes ok: "deck_ok s" and syn: "synced s"
      and cl: "replaces_list e \<longrightarrow> pending_targets s = []"
      and nf: "\<not> (\<exists>x. e = SourceChange x)" "\<not> (\<exists>f. e = FiltersChange f)"
  shows "deck_ok (handle e s)"
proof (cases e)
  case (SourceChange x)
  then show ?thesis using nf by simp
next
  case (FiltersChange f)
  then show ?thesis using nf by simp
next
  case (FetchSettled p r out)
  then show ?thesis
    using deck_ok_finish [OF ok, of r p out] cl by simp
next
  case (Grant dx dy)
  have "deck_ok (s\<lparr>spring := None, position := 0\<rparr>)"
    using ok by (simp add: deck_ok_def pending_targets_def)
  then show ?thesis
    using Grant ok by (simp add: onPanResponderGrant_def deck_ok_reset)
next
  case (Move dx)
  then show ?thesis
    using ok by (simp add: onPanResponderMove_def deck_ok_def pending_targets_def)
next
  case (Release dx vx)
  have "deck_ok (s\<lparr>spring := Some \<lparr>toValue = 0, friction = 7, tension = 80\<rparr>\<rparr>)"
    using ok by (simp add: deck_ok_def pending_targets_def)
  then show ?thesis
    using Release ok syn by (simp add: onPanResponderRelease_def deck_ok_force synced_def)
next
  case Terminate
  have "deck_ok (s\<lparr>spring := None, position := 0\<rparr>)"
    using ok by (simp add: deck_ok_def pending_targets_def)
  then show ?thesis
    using Terminate by (simp add: onPanResponderTerminate_def deck_ok_reset)
next
  case (SafetyTimeout h)
  then show ?thesis using ok by (simp add: deck_ok_timeout)
next
  case (SettleEnd k)
  then show ?thesis using ok by (simp add: deck_ok_settle)
next
  case OpenDetail
  have "deck_ok (handleOpenDetail s) = deck_ok s"
    by (rule deck_ok_fields) (simp_all add: handleOpenDetail_def)
  then show ?thesis
    using OpenDetail ok by simp
next
  case (IssueUpdated u)
  then show ?thesis
    using ok by (simp add: handleIssueUpdated_def deck_ok_def pending_targets_def)
qed

lemma deck_ok_step:
  assumes ok: "deck_ok s" and syn: "synced s"
      and cl: "replaces_list e \<longrightarrow> pending_targets s = []"
  shows "deck_ok (step e s)"
proof (cases "(\<exists>x. e = SourceChange x) \<or> (\<exists>f. e = FiltersChange f)")
  case True
  then have p: "pending_targets s = []" using cl by auto
  from True obtain f where "handle e s = s\<lparr>filters := f\<rparr>"
    by (auto simp: handleSourceChange_def handleFiltersChange_def)
  then show ?thesis
    unfolding step_def using deck_ok_set_filters [OF p ok] by simp
next
  case False
  then have nf: "\<not> (\<exists>x. e = SourceChange x)" "\<not> (\<exists>f. e = FiltersChange f)"
    by simp_all
  show ?thesis
    unfolding step_def
    by (rule deck_ok_render_same [OF handle_filters [OF nf] deck_ok_handle [OF ok syn cl nf]])
qed

lemma deck_ok_in_bounds: "deck_ok s \<Longrightarrow> in_bounds s"
  by (auto simp: deck_ok_def in_bounds_def)

lemma calm_run_in_bounds:
  "deck_ok s \<Longrightarrow> synced s \<Longrightarrow> calm evs s
   \<Longrightarrow> deck_ok (run evs s) \<and> in_bounds (run evs s)"
proof (induction evs arbitrary: s)
  case Nil
  then show ?case by (simp add: deck_ok_in_bounds)
next
  case (Cons e es)
  then show ?case by (simp add: deck_ok_step synced_step)
qed

lemma deck_ok_mounted: "deck_ok (mounted w)"
  by (simp add: mounted_def filtersEffect_def resetDeck_def deck_ok_def pending_targets_def
        begin_fields initialScreen_def)


lemma calm_run_keeps_bounds:
  "calm evs (mounted w) \<Longrightarrow> in_bounds (run evs (mounted w))"
  using calm_run_in_bounds [OF deck_ok_mounted, of w evs] wf_mounted [of w]
  by simp

end
